theory Spec2Isabelle
  imports Complex_Main "HOL-Library.Word"
begin

unbundle bit_operations_syntax

section \<open>PolylineCollection: data model\<close>

text \<open>
  A shallow embedding of \<^verbatim>\<open>Source/Scene/PolylineCollection.js\<close>.

  Conventions of the embedding:
  \<^item> a JavaScript member whose name starts with an underscore is written with the prefix
    \<open>priv_\<close> (\<^verbatim>\<open>_polylines\<close> is \<open>priv_polylines\<close>, \<^verbatim>\<open>_update\<close> is \<open>priv_update\<close>);
  \<^item> JavaScript numbers are real numbers (rounding is not modelled); a number that may be
    \<^verbatim>\<open>undefined\<close> or \<^verbatim>\<open>NaN\<close> is a \<open>real option\<close> with \<open>None\<close> for both;
  \<^item> \<^verbatim>\<open>Polyline\<close> objects are shared between the client and the collection, so they live
    in a heap (a list, a reference is a position in it, allocation appends); \<^verbatim>\<open>null\<close> and
    \<^verbatim>\<open>undefined\<close> references are \<open>None\<close>;
  \<^item> objects that only the collection holds (render states, the vertex array facade) are
    stored in the collection record itself;
  \<^item> an operation that can throw returns \<open>Inl\<close> of the error together with the state as
    it is at the moment of the throw.

  Embedded are the constructor, \<^verbatim>\<open>add\<close>, \<^verbatim>\<open>remove\<close>, \<^verbatim>\<open>removeAll\<close>, \<^verbatim>\<open>_removePolylines\<close>,
  \<^verbatim>\<open>_updatePolyline\<close>, \<^verbatim>\<open>contains\<close>, \<^verbatim>\<open>get\<close>, \<^verbatim>\<open>getLength\<close>, \<^verbatim>\<open>computeNewBuffersUsage\<close>,
  \<^verbatim>\<open>_getIndexBuffer\<close>, \<^verbatim>\<open>render\<close>, \<^verbatim>\<open>_update\<close> with the three \<^verbatim>\<open>_write\<close> functions,
  \<^verbatim>\<open>_isShown\<close>, \<^verbatim>\<open>_clampWidth\<close>, \<^verbatim>\<open>_syncMorphTime\<close>, \<^verbatim>\<open>update\<close> and \<^verbatim>\<open>_getModelMatrix\<close>.
  Picking and \<^verbatim>\<open>destroy\<close> are left out.
\<close>

datatype error = DeveloperError string | TypeError

text \<open>
  Modelled from the spec: the enumerations and value types of the framework
  (\<^verbatim>\<open>Renderer/BufferUsage\<close>, \<^verbatim>\<open>Scene/SceneMode\<close>, \<^verbatim>\<open>Core/PrimitiveType\<close>,
  \<^verbatim>\<open>Core/ComponentDatatype\<close>, \<^verbatim>\<open>Core/IndexDatatype\<close>, \<^verbatim>\<open>Renderer/BlendingState\<close>,
  \<^verbatim>\<open>Renderer/StencilFunction\<close>, \<^verbatim>\<open>Renderer/StencilOperation\<close>, \<^verbatim>\<open>Core/Cartesian3\<close>,
  \<^verbatim>\<open>Core/Matrix4\<close>) are not among the sources. The members that the collection names are
  listed, with a few of their siblings; a matrix is its sixteen entries, compared entry by
  entry.
\<close>

datatype BufferUsage = STATIC_DRAW | STREAM_DRAW | DYNAMIC_DRAW

datatype SceneMode = SCENE2D | COLUMBUS_VIEW | SCENE3D | MORPHING

datatype PrimitiveType = POINTS | LINES | LINE_STRIP | TRIANGLES

datatype ComponentDatatype = BYTE | UNSIGNED_BYTE | FLOAT

datatype IndexDatatype = UNSIGNED_SHORT

datatype BlendingState = BLEND_DISABLED | ALPHA_BLEND

datatype StencilFunction = NEVER | EQUAL | NOT_EQUAL | ALWAYS

datatype StencilOperation = KEEP | REPLACE | INCREMENT | DECREMENT

record Cartesian3 =
  c3_x :: real
  c3_y :: real
  c3_z :: real

record Color =
  red :: real
  green :: real
  blue :: real
  alpha :: real

datatype Matrix4 = Matrix4 "real list"

definition Matrix4_IDENTITY :: Matrix4 where
  "Matrix4_IDENTITY = Matrix4 [1, 0, 0, 0,  0, 1, 0, 0,  0, 0, 1, 0,  0, 0, 0, 1]"

definition Matrix4_equals :: "Matrix4 \<Rightarrow> Matrix4 \<Rightarrow> bool" where
  "Matrix4_equals a b = (a = b)"

definition Matrix4_clone :: "Matrix4 \<Rightarrow> Matrix4" where
  "Matrix4_clone m = m"

type_synonym ref = nat
type_synonym cid = nat

subsection \<open>Polyline\<close>

text \<open>
  Modelled from the spec: \<^verbatim>\<open>Scene/Polyline.js\<close> is not among the sources. The spec gives a
  line primitive a visibility flag, a position sequence, fill and outline colour, width and
  outline width, a slot index, a dirty mask and a back-reference to the owning collection,
  which is cleared when the primitive is detached. The defaults of a new primitive are:
  visible, no positions, opaque white fill and outline, unit widths.
\<close>

record Polyline =
  pl_show :: bool
  pl_positions :: "Cartesian3 list"
  pl_color :: Color
  pl_outlineColor :: Color
  pl_width :: real
  pl_outlineWidth :: real
  pl_index :: nat
  pl_collection :: "cid option"
  pl_dirtyMask :: nat

record Template =
  t_show :: "bool option"
  t_positions :: "Cartesian3 list option"
  t_width :: "real option"
  t_outlineWidth :: "real option"
  t_color :: "Color option"
  t_outlineColor :: "Color option"

definition noTemplate :: Template where
  "noTemplate = \<lparr>t_show = None, t_positions = None, t_width = None, t_outlineWidth = None,
     t_color = None, t_outlineColor = None\<rparr>"

definition white :: Color where
  "white = \<lparr>red = 1, green = 1, blue = 1, alpha = 1\<rparr>"

definition orElse :: "'a option \<Rightarrow> 'a \<Rightarrow> 'a" where
  "orElse v d = (case v of None \<Rightarrow> d | Some a \<Rightarrow> a)"

text \<open>Modelled from the spec: the constructor \<^verbatim>\<open>new Polyline(template, collection)\<close>.\<close>

definition Polyline_new :: "Template option \<Rightarrow> cid \<Rightarrow> Polyline" where
  "Polyline_new polyline collection =
     (let p = orElse polyline noTemplate in
      \<lparr>pl_show = orElse (t_show p) True,
       pl_positions = orElse (t_positions p) [],
       pl_color = orElse (t_color p) white,
       pl_outlineColor = orElse (t_outlineColor p) white,
       pl_width = orElse (t_width p) 1,
       pl_outlineWidth = orElse (t_outlineWidth p) 1,
       pl_index = 0,
       pl_collection = Some collection,
       pl_dirtyMask = 0\<rparr>)"

text \<open>Modelled from the spec: the accessors of a primitive that the collection calls.\<close>

definition getPositions :: "Polyline \<Rightarrow> Cartesian3 list" where
  "getPositions p = pl_positions p"

definition getColor :: "Polyline \<Rightarrow> Color" where
  "getColor p = pl_color p"

definition priv_getCollection :: "Polyline \<Rightarrow> cid option" where
  "priv_getCollection p = pl_collection p"

definition priv_isDirty :: "Polyline \<Rightarrow> bool" where
  "priv_isDirty p = (pl_dirtyMask p \<noteq> 0)"

definition priv_clean :: "Polyline \<Rightarrow> Polyline" where
  "priv_clean p = p\<lparr>pl_dirtyMask := 0\<rparr>"

definition priv_destroy :: "Polyline \<Rightarrow> Polyline" where
  "priv_destroy p = p\<lparr>pl_collection := None\<rparr>"

text \<open>
  Modelled from the spec: the property codes of \<^verbatim>\<open>Polyline\<close>, in the order in which the
  constructor of the collection lists them beside \<^verbatim>\<open>_buffersUsage\<close>.
\<close>

definition SHOW_INDEX :: nat where "SHOW_INDEX = 0"
definition POSITION_INDEX :: nat where "POSITION_INDEX = 1"
definition COLOR_INDEX :: nat where "COLOR_INDEX = 2"
definition WIDTH_INDEX :: nat where "WIDTH_INDEX = 3"
definition OUTLINE_WIDTH_INDEX :: nat where "OUTLINE_WIDTH_INDEX = 4"
definition OUTLINE_COLOR_INDEX :: nat where "OUTLINE_COLOR_INDEX = 5"
definition NUMBER_OF_PROPERTIES :: nat where "NUMBER_OF_PROPERTIES = 6"

subsection \<open>Rendering backend\<close>

text \<open>
  Modelled from the spec: a render state as the collection fills it in (colour mask, line
  width, depth mask, depth test, blending, stencil test with function, operation, reference
  and mask).
\<close>

record ColorMask =
  cm_red :: bool
  cm_green :: bool
  cm_blue :: bool
  cm_alpha :: bool

record StencilOperations =
  so_fail :: StencilOperation
  so_zFail :: StencilOperation
  so_zPass :: StencilOperation

record StencilTest =
  st_enabled :: bool
  st_frontFunction :: StencilFunction
  st_backFunction :: StencilFunction
  st_reference :: int
  st_mask :: "32 word"
  st_frontOperation :: StencilOperations
  st_backOperation :: StencilOperations

record RenderState =
  rs_colorMask :: ColorMask
  rs_lineWidth :: "real option"
  rs_depthMask :: bool
  rs_depthTest_enabled :: bool
  rs_blending :: BlendingState
  rs_stencilTest :: StencilTest

record IndexBuffer =
  ib_indices :: "16 word list"
  ib_usage :: BufferUsage
  ib_indexDatatype :: IndexDatatype
  ib_vertexArrayDestroyable :: bool

text \<open>
  Modelled from the spec: the rendering context is an external collaborator. The model keeps
  what the collection reads from it: the range of aliased line widths, the render state that
  \<^verbatim>\<open>createRenderState\<close> completes a template with, the number of vertices one buffer
  segment of the vertex store can address, and the per-context cache that holds the index
  buffer shared by all polyline collections.
\<close>

record Context =
  minimumAliasedLineWidth :: real
  maximumAliasedLineWidth :: real
  defaultRenderState :: RenderState
  segmentCapacity :: nat
  cache_indexBuffer :: "IndexBuffer option"

text \<open>
  Modelled from the spec: a shader program is acquired by its source pair and attribute
  binding map; the two shader sources stand for themselves by name.
\<close>

record ShaderProgram =
  sp_vertexShader :: string
  sp_fragmentShader :: string
  sp_attributeIndices :: "(string \<times> nat) list"

definition PolylineVS :: string where "PolylineVS = ''PolylineVS''"
definition PolylineFS :: string where "PolylineFS = ''PolylineFS''"

definition attributeIndices :: "(string \<times> nat) list" where
  "attributeIndices = [(''position3D'', 0), (''color'', 1), (''outlineColor'', 2)]"

definition attributeIndices_position3D :: nat where "attributeIndices_position3D = 0"
definition attributeIndices_color :: nat where "attributeIndices_color = 1"
definition attributeIndices_outlineColor :: nat where "attributeIndices_outlineColor = 2"

definition getShaderProgram :: "Context \<Rightarrow> string \<Rightarrow> string \<Rightarrow> (string \<times> nat) list \<Rightarrow> ShaderProgram" where
  "getShaderProgram context vs fs ai =
     \<lparr>sp_vertexShader = vs, sp_fragmentShader = fs, sp_attributeIndices = ai\<rparr>"

subsection \<open>Vertex array facade\<close>

text \<open>
  Modelled from the spec: \<^verbatim>\<open>Renderer/VertexArrayFacade.js\<close> is not among the sources. The
  spec describes a store built from an attribute list and an element count, with one write
  function per attribute (attribute index, element offset, component values) and a commit
  that realises the buffer segments. The model records the calls: every write in the order
  it was made, and the segments that the commit produced, each with the index buffer the
  commit was given.
\<close>

record Attribute =
  at_index :: nat
  at_componentsPerAttribute :: nat
  at_normalize :: bool
  at_componentDatatype :: ComponentDatatype
  at_usage :: "BufferUsage option"

record VertexArray =
  va_segment :: nat
  va_indexBuffer :: "IndexBuffer option"

record Segment =
  seg_va :: VertexArray
  seg_indicesCount :: nat

record VertexWrite =
  vw_attribute :: nat
  vw_vertex :: nat
  vw_components :: "real list"

record VertexArrayFacade =
  vaf_attributes :: "Attribute list"
  vaf_size :: nat
  vaf_writes :: "VertexWrite list"
  vaf_va :: "Segment list option"

definition VertexArrayFacade_new :: "Context \<Rightarrow> Attribute list \<Rightarrow> nat \<Rightarrow> VertexArrayFacade" where
  "VertexArrayFacade_new context attributes sizeInVertices =
     \<lparr>vaf_attributes = attributes, vaf_size = sizeInVertices, vaf_writes = [], vaf_va = None\<rparr>"

definition vaf_writer :: "nat \<Rightarrow> nat \<Rightarrow> real list \<Rightarrow> VertexArrayFacade \<Rightarrow> VertexArrayFacade" where
  "vaf_writer attribute i components vaf =
     vaf\<lparr>vaf_writes := vaf_writes vaf @
       [\<lparr>vw_attribute = attribute, vw_vertex = i, vw_components = components\<rparr>]\<rparr>"

definition numberOfSegments :: "Context \<Rightarrow> nat \<Rightarrow> nat" where
  "numberOfSegments context n =
     (if segmentCapacity context = 0 then 0
      else (n + segmentCapacity context - 1) div segmentCapacity context)"

definition vaf_commit :: "Context \<Rightarrow> IndexBuffer option \<Rightarrow> VertexArrayFacade \<Rightarrow> VertexArrayFacade" where
  "vaf_commit context indexBuffer vaf =
     vaf\<lparr>vaf_va := Some (map (\<lambda>k. \<lparr>seg_va = \<lparr>va_segment = k, va_indexBuffer = indexBuffer\<rparr>,
                                   seg_indicesCount = 0\<rparr>)
                           [0 ..< numberOfSegments context (vaf_size vaf)])\<rparr>"

subsection \<open>The collection\<close>

datatype UniformMap = DrawUniformsOne3D | DrawUniformsTwo3D | DrawUniformsThree3D

record PolylineCollection =
  ident :: cid
  priv_polylines :: "ref option list"
  priv_polylinesToUpdate :: "ref list"
  priv_polylinesRemoved :: bool
  priv_createVertexArray :: bool
  morphTime :: real
  priv_propertiesChanged :: "32 word list"
  modelMatrix :: Matrix4
  priv_modelMatrix :: Matrix4
  bufferUsage :: BufferUsage
  priv_bufferUsage :: "BufferUsage option"
  priv_buffersUsage :: "BufferUsage option list"
  priv_mode :: SceneMode
  scene2D :: "Matrix4 option option"
  width :: "real option"
  outlineWidth :: "real option"
  priv_drawUniformsOne :: "UniformMap option"
  priv_drawUniformsTwo :: "UniformMap option"
  priv_drawUniformsThree :: "UniformMap option"
  priv_sp :: "ShaderProgram option"
  priv_rsOne :: "RenderState option"
  priv_rsTwo :: "RenderState option"
  priv_rsThree :: "RenderState option"
  priv_vaf :: "VertexArrayFacade option"

record world =
  coll :: PolylineCollection
  heap :: "Polyline list"

text \<open>
  The constructor. \<^verbatim>\<open>width\<close>, \<^verbatim>\<open>outlineWidth\<close>, \<^verbatim>\<open>scene2D\<close>, \<^verbatim>\<open>_bufferUsage\<close>, \<^verbatim>\<open>_sp\<close>
  and the render states are not assigned by it, so they start \<^verbatim>\<open>undefined\<close>. The field
  \<open>scene2D\<close> is \<open>None\<close> when the object is missing and \<open>Some None\<close> when it has no
  \<^verbatim>\<open>modelMatrix\<close>.
\<close>

definition PolylineCollection_new :: "cid \<Rightarrow> PolylineCollection" where
  "PolylineCollection_new i =
     \<lparr>ident = i,
      priv_polylines = [],
      priv_polylinesToUpdate = [],
      priv_polylinesRemoved = False,
      priv_createVertexArray = False,
      morphTime = 0,
      priv_propertiesChanged = replicate NUMBER_OF_PROPERTIES 0,
      modelMatrix = Matrix4_IDENTITY,
      priv_modelMatrix = Matrix4_IDENTITY,
      bufferUsage = STATIC_DRAW,
      priv_bufferUsage = None,
      priv_buffersUsage = [Some STATIC_DRAW, Some STATIC_DRAW, Some STATIC_DRAW,
                           Some STATIC_DRAW, Some STATIC_DRAW, Some STATIC_DRAW],
      priv_mode = SCENE3D,
      scene2D = None,
      width = None,
      outlineWidth = None,
      priv_drawUniformsOne = None,
      priv_drawUniformsTwo = None,
      priv_drawUniformsThree = None,
      priv_sp = None,
      priv_rsOne = None,
      priv_rsTwo = None,
      priv_rsThree = None,
      priv_vaf = None\<rparr>"

section \<open>Membership operations\<close>

text \<open>\<^verbatim>\<open>add\<close>: allocate the primitive, give it the next slot, append it, ask for a rebuild.\<close>

definition add :: "Template option \<Rightarrow> world \<Rightarrow> ref \<times> world" where
  "add polyline w =
     (let c = coll w;
          p = length (heap w);
          obj = (Polyline_new polyline (ident c))\<lparr>pl_index := length (priv_polylines c)\<rparr>
      in (p, \<lparr>coll = c\<lparr>priv_polylines := priv_polylines c @ [Some p],
                        priv_createVertexArray := True\<rparr>,
              heap = heap w @ [obj]\<rparr>))"

text \<open>
  \<^verbatim>\<open>contains\<close>: the argument is truthy and its back-reference is this collection. A
  reference that names no allocated object has no counterpart in JavaScript; it is treated
  like an absent argument.
\<close>

fun contains :: "ref option \<Rightarrow> world \<Rightarrow> bool" where
  "contains None w = False"
| "contains (Some p) w =
     (p < length (heap w) \<and> priv_getCollection (heap w ! p) = Some (ident (coll w)))"

text \<open>
  An assignment \<^verbatim>\<open>a[i] = v\<close> to a JavaScript array: beyond the end the array grows, and the
  holes read as \<^verbatim>\<open>undefined\<close>.
\<close>

definition js_store :: "'a option list \<Rightarrow> nat \<Rightarrow> 'a option \<Rightarrow> 'a option list" where
  "js_store xs i v =
     (if i < length xs then xs[i := v] else xs @ replicate (i - length xs) None @ [v])"

text \<open>A read \<^verbatim>\<open>a[i]\<close>: outside the array it is \<^verbatim>\<open>undefined\<close>.\<close>

definition js_load :: "'a option list \<Rightarrow> int \<Rightarrow> 'a option" where
  "js_load xs i = (if 0 \<le> i \<and> nat i < length xs then xs ! nat i else None)"

fun remove :: "ref option \<Rightarrow> world \<Rightarrow> bool \<times> world" where
  "remove None w = (False, w)"
| "remove (Some p) w =
     (if contains (Some p) w then
        (let c = coll w;
             c1 = c\<lparr>priv_polylines := js_store (priv_polylines c) (pl_index (heap w ! p)) None\<rparr>;
             c2 = c1\<lparr>priv_polylinesRemoved := True\<rparr>;
             c3 = c2\<lparr>priv_createVertexArray := True\<rparr>
         in (True, \<lparr>coll = c3, heap = (heap w)[p := priv_destroy (heap w ! p)]\<rparr>))
      else (False, w))"

fun destroyLoop :: "ref option list \<Rightarrow> Polyline list \<Rightarrow> Polyline list" where
  "destroyLoop [] h = h"
| "destroyLoop (None # rest) h = destroyLoop rest h"
| "destroyLoop (Some p # rest) h = destroyLoop rest (h[p := priv_destroy (h ! p)])"

definition priv_destroyPolylines :: "world \<Rightarrow> world" where
  "priv_destroyPolylines w = w\<lparr>heap := destroyLoop (priv_polylines (coll w)) (heap w)\<rparr>"

definition removeAll :: "world \<Rightarrow> world" where
  "removeAll w =
     (let w1 = priv_destroyPolylines w;
          c = coll w1
      in w1\<lparr>coll := c\<lparr>priv_polylines := [],
                       priv_polylinesToUpdate := [],
                       priv_polylinesRemoved := False,
                       priv_createVertexArray := True\<rparr>\<rparr>)"

text \<open>
  The loop of \<^verbatim>\<open>_removePolylines\<close>: \<open>j\<close> is the next dense index, \<open>polylines\<close> the new
  array; the slots still to visit are the first argument.
\<close>

fun removeLoop :: "ref option list \<Rightarrow> nat \<Rightarrow> ref option list \<Rightarrow> Polyline list
    \<Rightarrow> ref option list \<times> Polyline list" where
  "removeLoop [] j polylines h = (polylines, h)"
| "removeLoop (None # rest) j polylines h = removeLoop rest j polylines h"
| "removeLoop (Some p # rest) j polylines h =
     removeLoop rest (j + 1) (polylines @ [Some p]) (h[p := (h ! p)\<lparr>pl_index := j\<rparr>])"

definition priv_removePolylines :: "world \<Rightarrow> world" where
  "priv_removePolylines w =
     (if priv_polylinesRemoved (coll w) then
        (let c1 = (coll w)\<lparr>priv_polylinesRemoved := False\<rparr>;
             (polylines, h) = removeLoop (priv_polylines c1) 0 [] (heap w)
         in \<lparr>coll = c1\<lparr>priv_polylines := polylines\<rparr>, heap = h\<rparr>)
      else w)"

text \<open>\<^verbatim>\<open>get\<close>: the index is \<open>None\<close> when the caller passed \<^verbatim>\<open>undefined\<close>.\<close>

fun get :: "int option \<Rightarrow> world \<Rightarrow> (error + ref option) \<times> world" where
  "get None w = (Inl (DeveloperError ''index is required.''), w)"
| "get (Some index) w =
     (let w1 = priv_removePolylines w
      in (Inr (js_load (priv_polylines (coll w1)) index), w1))"

definition getLength :: "world \<Rightarrow> nat \<times> world" where
  "getLength w =
     (let w1 = priv_removePolylines w
      in (length (priv_polylines (coll w1)), w1))"

section \<open>Dirty tracking and buffer usage\<close>

text \<open>
  \<^verbatim>\<open>_updatePolyline\<close>: the notification a primitive sends when one of its properties changes.
  \<^verbatim>\<open>_propertiesChanged\<close> is a \<^verbatim>\<open>Uint32Array\<close>: the increment wraps at \<open>2 ^ 32\<close>, and a write
  outside the array is ignored.
\<close>

definition priv_updatePolyline :: "ref \<Rightarrow> nat \<Rightarrow> world \<Rightarrow> world" where
  "priv_updatePolyline polyline propertyChanged w =
     (let c = coll w;
          c1 = (if \<not> priv_isDirty (heap w ! polyline)
                then c\<lparr>priv_polylinesToUpdate := priv_polylinesToUpdate c @ [polyline]\<rparr>
                else c);
          properties = priv_propertiesChanged c1
      in w\<lparr>coll := c1\<lparr>priv_propertiesChanged :=
             (if propertyChanged < length properties
              then properties[propertyChanged := properties ! propertyChanged + 1]
              else properties)\<rparr>\<rparr>)"

text \<open>
  The loop of \<^verbatim>\<open>computeNewBuffersUsage\<close>. A read outside \<^verbatim>\<open>_propertiesChanged\<close> is
  \<^verbatim>\<open>undefined\<close>, which is not \<^verbatim>\<open>=== 0\<close>.
\<close>

function usageLoop :: "nat \<Rightarrow> 32 word list \<Rightarrow> BufferUsage option list \<Rightarrow> bool
    \<Rightarrow> bool \<times> BufferUsage option list" where
  "usageLoop k properties buffersUsage usageChanged =
     (if k < NUMBER_OF_PROPERTIES then
        (let newUsage = (if k < length properties \<and> properties ! k = 0
                         then STATIC_DRAW else STREAM_DRAW);
             usageChanged1 = (usageChanged \<or> js_load buffersUsage (int k) \<noteq> Some newUsage)
         in usageLoop (k + 1) properties (js_store buffersUsage k (Some newUsage)) usageChanged1)
      else (usageChanged, buffersUsage))"
  by pat_completeness auto
termination
  by (relation "measure (\<lambda>(k, properties, buffersUsage, usageChanged). NUMBER_OF_PROPERTIES - k)") auto

declare usageLoop.simps [simp del]

definition computeNewBuffersUsage :: "world \<Rightarrow> bool \<times> world" where
  "computeNewBuffersUsage w =
     (let (usageChanged, buffersUsage) =
            usageLoop 0 (priv_propertiesChanged (coll w)) (priv_buffersUsage (coll w)) False
      in (usageChanged, w\<lparr>coll := (coll w)\<lparr>priv_buffersUsage := buffersUsage\<rparr>\<rparr>))"

section \<open>The shared index buffer\<close>

text \<open>
  \<^verbatim>\<open>PolylineCollection._getIndexBuffer\<close>: the per-context cache of an index buffer of
  \<open>16 * 1024\<close> quads, kept in a \<^verbatim>\<open>Uint16Array\<close>. No other function of the file calls it.
\<close>

function indexLoop :: "nat \<Rightarrow> nat \<Rightarrow> nat \<Rightarrow> 16 word list \<Rightarrow> 16 word list" where
  "indexLoop n i j indices =
     (if i < n then
        indexLoop n (i + 6) (j + 4)
          (indices[i + 0 := of_nat (j + 0), i + 1 := of_nat (j + 1), i + 2 := of_nat (j + 2),
                   i + 3 := of_nat (j + 0), i + 4 := of_nat (j + 2), i + 5 := of_nat (j + 3)])
      else indices)"
  by pat_completeness auto
termination
  by (relation "measure (\<lambda>(n, i, j, indices). n - i)") auto

declare indexLoop.simps [simp del]

definition priv_getIndexBuffer :: "Context \<Rightarrow> IndexBuffer \<times> Context" where
  "priv_getIndexBuffer context =
     (case cache_indexBuffer context of
        Some indexBuffer \<Rightarrow> (indexBuffer, context)
      | None \<Rightarrow>
          (let sixteenK = 16 * 1024;
               n = sixteenK * 6;
               indices = indexLoop n 0 0 (replicate n 0);
               indexBuffer = \<lparr>ib_indices = indices, ib_usage = STATIC_DRAW,
                              ib_indexDatatype = UNSIGNED_SHORT,
                              ib_vertexArrayDestroyable = False\<rparr>
           in (indexBuffer, context\<lparr>cache_indexBuffer := Some indexBuffer\<rparr>)))"

section \<open>Rendering\<close>

record DrawCall =
  dc_primitiveType :: PrimitiveType
  dc_shaderProgram :: "ShaderProgram option"
  dc_uniformMap :: "UniformMap option"
  dc_vertexArray :: VertexArray
  dc_renderState :: "RenderState option"

text \<open>The loop of \<^verbatim>\<open>render\<close> over the segments; the result lists the draw calls in order.\<close>

fun renderLoop :: "PolylineCollection \<Rightarrow> Segment list \<Rightarrow> DrawCall list" where
  "renderLoop c [] = []"
| "renderLoop c (s # va) =
     [\<lparr>dc_primitiveType = LINES, dc_shaderProgram = priv_sp c,
       dc_uniformMap = priv_drawUniformsOne c, dc_vertexArray = seg_va s,
       dc_renderState = priv_rsOne c\<rparr>,
      \<lparr>dc_primitiveType = LINES, dc_shaderProgram = priv_sp c,
       dc_uniformMap = priv_drawUniformsTwo c, dc_vertexArray = seg_va s,
       dc_renderState = priv_rsTwo c\<rparr>,
      \<lparr>dc_primitiveType = LINES, dc_shaderProgram = priv_sp c,
       dc_uniformMap = priv_drawUniformsThree c, dc_vertexArray = seg_va s,
       dc_renderState = priv_rsThree c\<rparr>] @ renderLoop c va"

definition render :: "PolylineCollection \<Rightarrow> DrawCall list" where
  "render c =
     (case priv_vaf c of
        None \<Rightarrow> []
      | Some vaf \<Rightarrow> (case vaf_va vaf of None \<Rightarrow> [] | Some va \<Rightarrow> renderLoop c va))"

section \<open>Rebuilding the vertex store\<close>

text \<open>
  The first loop of \<^verbatim>\<open>_update\<close>. It reads \<^verbatim>\<open>polylines[j].getPositions()\<close> on every slot, and
  a slot that holds \<^verbatim>\<open>null\<close> makes that a \<^verbatim>\<open>TypeError\<close>.
\<close>

fun sizeLoop :: "ref option list \<Rightarrow> Polyline list \<Rightarrow> nat \<Rightarrow> error + nat" where
  "sizeLoop [] h sizeInVertices = Inr sizeInVertices"
| "sizeLoop (None # rest) h sizeInVertices = Inl TypeError"
| "sizeLoop (Some p # rest) h sizeInVertices =
     sizeLoop rest h (sizeInVertices + length (getPositions (h ! p)))"

text \<open>\<^verbatim>\<open>_writePosition\<close> and \<^verbatim>\<open>_writeColor\<close>: both write vertex \<open>i + j\<close> with \<open>i\<close> the slot index.\<close>

fun positionLoop :: "nat \<Rightarrow> nat \<Rightarrow> Cartesian3 list \<Rightarrow> VertexArrayFacade \<Rightarrow> VertexArrayFacade" where
  "positionLoop i j [] vaf = vaf"
| "positionLoop i j (position # rest) vaf =
     positionLoop i (j + 1) rest
       (vaf_writer attributeIndices_position3D (i + j)
          [c3_x position, c3_y position, c3_z position] vaf)"

definition priv_writePosition :: "Polyline \<Rightarrow> VertexArrayFacade \<Rightarrow> VertexArrayFacade" where
  "priv_writePosition polyline vaf =
     positionLoop (pl_index polyline) 0 (getPositions polyline) vaf"

fun colorLoop :: "nat \<Rightarrow> nat \<Rightarrow> Cartesian3 list \<Rightarrow> Color \<Rightarrow> VertexArrayFacade \<Rightarrow> VertexArrayFacade" where
  "colorLoop i j [] color vaf = vaf"
| "colorLoop i j (position # rest) color vaf =
     colorLoop i (j + 1) rest color
       (vaf_writer attributeIndices_color (i + j)
          [red color * 255, green color * 255, blue color * 255, alpha color * 255] vaf)"

definition priv_writeColor :: "Polyline \<Rightarrow> VertexArrayFacade \<Rightarrow> VertexArrayFacade" where
  "priv_writeColor polyline vaf =
     colorLoop (pl_index polyline) 0 (getPositions polyline) (getColor polyline) vaf"

definition priv_writePolyline :: "Polyline \<Rightarrow> VertexArrayFacade \<Rightarrow> VertexArrayFacade" where
  "priv_writePolyline polyline vaf = priv_writeColor polyline (priv_writePosition polyline vaf)"

text \<open>The second loop of \<^verbatim>\<open>_update\<close>: clean the primitive, then write it.\<close>

fun writeLoop :: "ref option list \<Rightarrow> Polyline list \<Rightarrow> VertexArrayFacade
    \<Rightarrow> error option \<times> Polyline list \<times> VertexArrayFacade" where
  "writeLoop [] h vaf = (None, h, vaf)"
| "writeLoop (None # rest) h vaf = (Some TypeError, h, vaf)"
| "writeLoop (Some p # rest) h vaf =
     (let polyline = priv_clean (h ! p)
      in writeLoop rest (h[p := polyline]) (priv_writePolyline polyline vaf))"

definition priv_update :: "Context \<Rightarrow> world \<Rightarrow> (error + unit) \<times> world" where
  "priv_update context w =
     (let c = coll w;
          polylines = priv_polylines c
      in case sizeLoop polylines (heap w) 0 of
           Inl e \<Rightarrow> (Inl e, w)
         | Inr sizeInVertices \<Rightarrow>
            (let vaf0 = VertexArrayFacade_new context
                   [\<lparr>at_index = attributeIndices_position3D, at_componentsPerAttribute = 3,
                     at_normalize = False, at_componentDatatype = FLOAT,
                     at_usage = js_load (priv_buffersUsage c) (int POSITION_INDEX)\<rparr>,
                    \<lparr>at_index = attributeIndices_color, at_componentsPerAttribute = 4,
                     at_normalize = True, at_componentDatatype = UNSIGNED_BYTE,
                     at_usage = js_load (priv_buffersUsage c) (int COLOR_INDEX)\<rparr>,
                    \<lparr>at_index = attributeIndices_outlineColor, at_componentsPerAttribute = 4,
                     at_normalize = True, at_componentDatatype = UNSIGNED_BYTE,
                     at_usage = js_load (priv_buffersUsage c) (int OUTLINE_COLOR_INDEX)\<rparr>]
                   sizeInVertices;
                 (err, h, vaf1) = writeLoop polylines (heap w) vaf0
             in case err of
                  Some e \<Rightarrow> (Inl e, \<lparr>coll = c\<lparr>priv_vaf := Some vaf1\<rparr>, heap = h\<rparr>)
                | None \<Rightarrow> (Inr (), \<lparr>coll = c\<lparr>priv_vaf := Some (vaf_commit context None vaf1)\<rparr>,
                                    heap = h\<rparr>)))"

section \<open>The per-frame update\<close>

definition priv_isShown :: "PolylineCollection \<Rightarrow> bool" where
  "priv_isShown c = True"

text \<open>
  \<^verbatim>\<open>Math.min(Math.max(value, min), max)\<close>; with \<^verbatim>\<open>value\<close> undefined the result is \<^verbatim>\<open>NaN\<close>.
\<close>

definition priv_clampWidth :: "Context \<Rightarrow> real option \<Rightarrow> real option" where
  "priv_clampWidth context v =
     (case v of
        None \<Rightarrow> None
      | Some a \<Rightarrow> Some (min (max a (minimumAliasedLineWidth context))
                           (maximumAliasedLineWidth context)))"

fun priv_syncMorphTime :: "SceneMode \<Rightarrow> PolylineCollection \<Rightarrow> PolylineCollection" where
  "priv_syncMorphTime SCENE3D c = c\<lparr>morphTime := 1\<rparr>"
| "priv_syncMorphTime SCENE2D c = c\<lparr>morphTime := 0\<rparr>"
| "priv_syncMorphTime COLUMBUS_VIEW c = c\<lparr>morphTime := 0\<rparr>"
| "priv_syncMorphTime MORPHING c = c"

fun priv_getModelMatrix :: "SceneMode \<Rightarrow> PolylineCollection \<Rightarrow> error + Matrix4" where
  "priv_getModelMatrix SCENE3D c = Inr (modelMatrix c)"
| "priv_getModelMatrix MORPHING c = Inr Matrix4_IDENTITY"
| "priv_getModelMatrix m c =
     (case scene2D c of
        None \<Rightarrow> Inl TypeError
      | Some None \<Rightarrow> Inr (modelMatrix c)
      | Some (Some mm) \<Rightarrow> Inr mm)"

definition stencilOne :: StencilTest where
  "stencilOne =
     \<lparr>st_enabled = True, st_frontFunction = ALWAYS, st_backFunction = ALWAYS,
      st_reference = 0, st_mask = NOT 0,
      st_frontOperation = \<lparr>so_fail = REPLACE, so_zFail = REPLACE, so_zPass = REPLACE\<rparr>,
      st_backOperation = \<lparr>so_fail = REPLACE, so_zFail = REPLACE, so_zPass = REPLACE\<rparr>\<rparr>"

definition stencilTwo :: StencilTest where
  "stencilTwo =
     \<lparr>st_enabled = True, st_frontFunction = ALWAYS, st_backFunction = ALWAYS,
      st_reference = 1, st_mask = NOT 0,
      st_frontOperation = \<lparr>so_fail = KEEP, so_zFail = KEEP, so_zPass = REPLACE\<rparr>,
      st_backOperation = \<lparr>so_fail = KEEP, so_zFail = KEEP, so_zPass = REPLACE\<rparr>\<rparr>"

definition stencilThree :: StencilTest where
  "stencilThree =
     \<lparr>st_enabled = True, st_frontFunction = NOT_EQUAL, st_backFunction = NOT_EQUAL,
      st_reference = 1, st_mask = NOT 0,
      st_frontOperation = \<lparr>so_fail = KEEP, so_zFail = KEEP, so_zPass = KEEP\<rparr>,
      st_backOperation = \<lparr>so_fail = KEEP, so_zFail = KEEP, so_zPass = KEEP\<rparr>\<rparr>"

text \<open>The three \<^verbatim>\<open>context.createRenderState\<close> calls of the first \<^verbatim>\<open>update\<close>.\<close>

definition createRsOne :: "Context \<Rightarrow> RenderState" where
  "createRsOne context =
     (defaultRenderState context)
       \<lparr>rs_colorMask := \<lparr>cm_red = False, cm_green = False, cm_blue = False, cm_alpha = False\<rparr>,
        rs_lineWidth := Some 1,
        rs_blending := ALPHA_BLEND,
        rs_stencilTest := stencilOne\<rparr>"

definition createRsTwo :: "Context \<Rightarrow> RenderState" where
  "createRsTwo context =
     (defaultRenderState context)
       \<lparr>rs_lineWidth := Some 1,
        rs_depthMask := False,
        rs_blending := ALPHA_BLEND,
        rs_stencilTest := stencilTwo\<rparr>"

definition createRsThree :: "Context \<Rightarrow> RenderState" where
  "createRsThree context =
     (defaultRenderState context)
       \<lparr>rs_lineWidth := Some 1,
        rs_depthMask := False,
        rs_blending := ALPHA_BLEND,
        rs_stencilTest := stencilThree\<rparr>"

text \<open>
  \<^verbatim>\<open>update\<close>. The mode is the constant \<^verbatim>\<open>SceneMode.SCENE3D\<close>, as in the source. An assignment
  to a member of a render state that is \<^verbatim>\<open>undefined\<close> is a \<^verbatim>\<open>TypeError\<close>.
\<close>

definition update :: "Context \<Rightarrow> world \<Rightarrow> (error + unit) \<times> world" where
  "update context w =
     (if priv_isShown (coll w) then
        (let c0 = coll w;
             c1 = (if priv_sp c0 = None
                   then c0\<lparr>priv_sp := Some (getShaderProgram context PolylineVS PolylineFS attributeIndices),
                           priv_rsOne := Some (createRsOne context),
                           priv_rsTwo := Some (createRsTwo context),
                           priv_rsThree := Some (createRsThree context)\<rparr>
                   else c0);
             mode = SCENE3D;
             c2 = priv_syncMorphTime mode c1;
             width1 = priv_clampWidth context (width c2);
             outlineWidth1 = priv_clampWidth context (outlineWidth c2);
             useDepthTest = (morphTime c2 \<noteq> 0)
         in case priv_rsOne c2 of
              None \<Rightarrow> (Inl TypeError, w\<lparr>coll := c2\<rparr>)
            | Some rsOne \<Rightarrow>
         (let c3 = c2\<lparr>priv_rsOne := Some (rsOne\<lparr>rs_lineWidth := outlineWidth1,
                                                 rs_depthMask := \<not> useDepthTest,
                                                 rs_depthTest_enabled := useDepthTest\<rparr>)\<rparr>
          in case priv_rsTwo c3 of
               None \<Rightarrow> (Inl TypeError, w\<lparr>coll := c3\<rparr>)
             | Some rsTwo \<Rightarrow>
         (let c4 = c3\<lparr>priv_rsTwo := Some (rsTwo\<lparr>rs_lineWidth := width1,
                                                 rs_depthTest_enabled := useDepthTest\<rparr>)\<rparr>
          in case priv_rsThree c4 of
               None \<Rightarrow> (Inl TypeError, w\<lparr>coll := c4\<rparr>)
             | Some rsThree \<Rightarrow>
         (let c5 = c4\<lparr>priv_rsThree := Some (rsThree\<lparr>rs_lineWidth := outlineWidth1,
                                                     rs_depthTest_enabled := useDepthTest\<rparr>)\<rparr>
          in case priv_getModelMatrix mode c5 of
               Inl e \<Rightarrow> (Inl e, w\<lparr>coll := c5\<rparr>)
             | Inr modelMatrix1 \<Rightarrow>
         (if priv_createVertexArray c5 \<or>
             priv_bufferUsage c5 \<noteq> Some (bufferUsage c5) \<or>
             priv_mode c5 \<noteq> mode \<or>
             (mode \<noteq> SCENE3D \<and> \<not> Matrix4_equals (priv_modelMatrix c5) modelMatrix1)
          then
            (let c6 = c5\<lparr>priv_createVertexArray := False,
                         priv_bufferUsage := Some (bufferUsage c5),
                         priv_mode := mode,
                         priv_modelMatrix := Matrix4_clone modelMatrix1\<rparr>
             in if mode = SCENE3D
                then priv_update context
                       (w\<lparr>coll := c6\<lparr>priv_drawUniformsOne := Some DrawUniformsOne3D,
                                      priv_drawUniformsTwo := Some DrawUniformsTwo3D,
                                      priv_drawUniformsThree := Some DrawUniformsThree3D\<rparr>\<rparr>)
                else (Inr (), w\<lparr>coll := c6\<rparr>))
          else (Inr (), w\<lparr>coll := c5\<rparr>))))))
      else (Inr (), w))"

section \<open>Invariant, operation sequences and example worlds\<close>

text \<open>The primitives that occupy a slot, in slot order (tombstones skipped).\<close>

fun live :: "ref option list \<Rightarrow> ref list" where
  "live [] = []"
| "live (None # xs) = live xs"
| "live (Some p # xs) = p # live xs"

text \<open>
  The invariant that links the slots with the primitives: a primitive in slot \<open>i\<close> is
  allocated, refers back to this collection and carries \<open>i\<close> as its \<^verbatim>\<open>_index\<close>; a primitive
  that refers back to this collection sits in the slot its \<^verbatim>\<open>_index\<close> names; and tombstones
  exist only while \<^verbatim>\<open>_polylinesRemoved\<close> is set.
\<close>

definition wf :: "world \<Rightarrow> bool" where
  "wf w =
     (list_all
        (\<lambda>i. case priv_polylines (coll w) ! i of
               None \<Rightarrow> True
             | Some p \<Rightarrow>
                 p < length (heap w) \<and> pl_collection (heap w ! p) = Some (ident (coll w)) \<and>
                 pl_index (heap w ! p) = i)
        [0 ..< length (priv_polylines (coll w))] \<and>
      list_all
        (\<lambda>p. pl_collection (heap w ! p) \<noteq> Some (ident (coll w)) \<or>
               (pl_index (heap w ! p) < length (priv_polylines (coll w)) \<and>
                priv_polylines (coll w) ! pl_index (heap w ! p) = Some p))
        [0 ..< length (heap w)] \<and>
      (priv_polylinesRemoved (coll w) \<or> None \<notin> set (priv_polylines (coll w))))"

text \<open>
  What a client can do with a collection: call its methods, assign its public fields, and
  (through a primitive's setter) send it a dirty notification.
\<close>

datatype operation =
    OpAdd "Template option"
  | OpRemove "ref option"
  | OpRemoveAll
  | OpGet "int option"
  | OpGetLength
  | OpUpdatePolyline ref nat
  | OpComputeNewBuffersUsage
  | OpUpdate Context
  | OpSetWidth "real option"
  | OpSetOutlineWidth "real option"
  | OpSetBufferUsage BufferUsage
  | OpSetModelMatrix Matrix4

datatype outcome =
    Added ref
  | Removed bool
  | Got "error + ref option"
  | Length nat
  | UsageChanged bool
  | Updated "error + unit"
  | Nothing

fun apply_op :: "operation \<Rightarrow> world \<Rightarrow> outcome \<times> world" where
  "apply_op (OpAdd t) w = (Added (fst (add t w)), snd (add t w))"
| "apply_op (OpRemove q) w = (Removed (fst (remove q w)), snd (remove q w))"
| "apply_op OpRemoveAll w = (Nothing, removeAll w)"
| "apply_op (OpGet i) w = (Got (fst (get i w)), snd (get i w))"
| "apply_op OpGetLength w = (Length (fst (getLength w)), snd (getLength w))"
| "apply_op (OpUpdatePolyline p k) w = (Nothing, priv_updatePolyline p k w)"
| "apply_op OpComputeNewBuffersUsage w =
     (UsageChanged (fst (computeNewBuffersUsage w)), snd (computeNewBuffersUsage w))"
| "apply_op (OpUpdate context) w = (Updated (fst (update context w)), snd (update context w))"
| "apply_op (OpSetWidth v) w = (Nothing, w\<lparr>coll := (coll w)\<lparr>width := v\<rparr>\<rparr>)"
| "apply_op (OpSetOutlineWidth v) w = (Nothing, w\<lparr>coll := (coll w)\<lparr>outlineWidth := v\<rparr>\<rparr>)"
| "apply_op (OpSetBufferUsage u) w = (Nothing, w\<lparr>coll := (coll w)\<lparr>bufferUsage := u\<rparr>\<rparr>)"
| "apply_op (OpSetModelMatrix m) w = (Nothing, w\<lparr>coll := (coll w)\<lparr>modelMatrix := m\<rparr>\<rparr>)"

fun run :: "operation list \<Rightarrow> world \<Rightarrow> (operation \<times> outcome) list \<times> world" where
  "run [] w = ([], w)"
| "run (op # ops) w =
     ((op, fst (apply_op op w)) # fst (run ops (snd (apply_op op w))),
      snd (run ops (snd (apply_op op w))))"

text \<open>
  The primitives that \<^verbatim>\<open>add\<close> returned in a trace, and those for which \<^verbatim>\<open>remove\<close> returned
  \<^verbatim>\<open>true\<close>.
\<close>

fun addedOf :: "(operation \<times> outcome) list \<Rightarrow> ref list" where
  "addedOf [] = []"
| "addedOf ((op, Added p) # tr) = p # addedOf tr"
| "addedOf (x # tr) = addedOf tr"

fun removedOf :: "(operation \<times> outcome) list \<Rightarrow> ref list" where
  "removedOf [] = []"
| "removedOf ((OpRemove (Some p), Removed True) # tr) = p # removedOf tr"
| "removedOf (x # tr) = removedOf tr"

fun isAddRemove :: "operation \<Rightarrow> bool" where
  "isAddRemove (OpAdd t) = True"
| "isAddRemove (OpRemove q) = True"
| "isAddRemove op = False"

text \<open>The number of dirty notifications for property \<open>k\<close> in a sequence.\<close>

fun notifications :: "nat \<Rightarrow> operation list \<Rightarrow> nat" where
  "notifications k [] = 0"
| "notifications k (OpUpdatePolyline p j # ops) =
     (if j = k then Suc (notifications k ops) else notifications k ops)"
| "notifications k (op # ops) = notifications k ops"

text \<open>Concrete values for the instances below.\<close>

definition exampleContext :: Context where
  "exampleContext =
     \<lparr>minimumAliasedLineWidth = 1, maximumAliasedLineWidth = 10,
      defaultRenderState =
        \<lparr>rs_colorMask = \<lparr>cm_red = True, cm_green = True, cm_blue = True, cm_alpha = True\<rparr>,
         rs_lineWidth = Some 1, rs_depthMask = True, rs_depthTest_enabled = False,
         rs_blending = BLEND_DISABLED,
         rs_stencilTest = stencilOne\<lparr>st_enabled := False\<rparr>\<rparr>,
      segmentCapacity = 65536, cache_indexBuffer = None\<rparr>"

definition templateA :: Template where
  "templateA = noTemplate
     \<lparr>t_positions := Some [\<lparr>c3_x = 1, c3_y = 2, c3_z = 3\<rparr>, \<lparr>c3_x = 2, c3_y = 3, c3_z = 4\<rparr>],
      t_color := Some \<lparr>red = 1, green = 0, blue = 0, alpha = 1\<rparr>,
      t_outlineColor := Some \<lparr>red = 0, green = 0, blue = 1, alpha = 1\<rparr>\<rparr>"

definition templateB :: Template where
  "templateB = noTemplate
     \<lparr>t_positions := Some [\<lparr>c3_x = 4, c3_y = 5, c3_z = 6\<rparr>, \<lparr>c3_x = 2, c3_y = 3, c3_z = 4\<rparr>],
      t_color := Some \<lparr>red = 0, green = 1, blue = 0, alpha = 1\<rparr>,
      t_outlineColor := Some \<lparr>red = 0, green = 0, blue = 0, alpha = 1\<rparr>\<rparr>"

text \<open>A fresh collection beside one primitive that another collection owns.\<close>

definition freshWorld :: world where
  "freshWorld = \<lparr>coll = PolylineCollection_new 7, heap = [Polyline_new None 8]\<rparr>"

definition twoPolylines :: world where
  "twoPolylines = snd (add (Some templateB) (snd (add (Some templateA) freshWorld)))"

text \<open>
  What the render states of a collection keep from their creation: once the shader program
  is set, the three render states exist and carry the colour mask, blending and stencil test
  that \<^verbatim>\<open>update\<close> created them with (\<^verbatim>\<open>update\<close> later assigns only line width and depth
  flags).
\<close>

definition rs_inv :: "PolylineCollection \<Rightarrow> bool" where
  "rs_inv c =
     (case priv_sp c of
        None \<Rightarrow> True
      | Some sp \<Rightarrow>
          (case priv_rsOne c of
             None \<Rightarrow> False
           | Some rs \<Rightarrow>
               rs_colorMask rs = \<lparr>cm_red = False, cm_green = False, cm_blue = False, cm_alpha = False\<rparr> \<and>
               rs_blending rs = ALPHA_BLEND \<and> rs_stencilTest rs = stencilOne) \<and>
          (case priv_rsTwo c of
             None \<Rightarrow> False
           | Some rs \<Rightarrow> rs_blending rs = ALPHA_BLEND \<and> rs_stencilTest rs = stencilTwo) \<and>
          (case priv_rsThree c of
             None \<Rightarrow> False
           | Some rs \<Rightarrow> rs_blending rs = ALPHA_BLEND \<and> rs_stencilTest rs = stencilThree))"

text \<open>Every segment of the vertex store, if there is one, was committed without index buffer.\<close>

definition vaf_inv :: "PolylineCollection \<Rightarrow> bool" where
  "vaf_inv c =
     (case priv_vaf c of
        None \<Rightarrow> True
      | Some vaf \<Rightarrow>
          (case vaf_va vaf of
             None \<Rightarrow> True
           | Some va \<Rightarrow> list_all (\<lambda>s. va_indexBuffer (seg_va s) = None) va))"

text \<open>The fields of the collection that \<^verbatim>\<open>update\<close> and \<^verbatim>\<open>_update\<close> only read.\<close>

definition clientView :: "PolylineCollection \<Rightarrow>
    (cid \<times> ref option list \<times> bool \<times> 32 word list \<times> BufferUsage option list) \<times>
    (real option \<times> real option \<times> BufferUsage \<times> Matrix4 \<times> Matrix4 option option \<times> ref list)" where
  "clientView c =
     ((ident c, priv_polylines c, priv_polylinesRemoved c, priv_propertiesChanged c,
       priv_buffersUsage c),
      (width c, outlineWidth c, bufferUsage c, modelMatrix c, scene2D c, priv_polylinesToUpdate c))"

text \<open>
  The collection as \<^verbatim>\<open>update\<close> has it at the point where it decides whether to rebuild, for
  a collection whose render states exist once its shader program does: program and render
  states created if they were missing, morph time synchronised with the 3D mode, line widths
  and depth flags assigned.
\<close>

definition prepared :: "Context \<Rightarrow> PolylineCollection \<Rightarrow> PolylineCollection" where
  "prepared context c =
     (let c1 = (if priv_sp c = None
                then c\<lparr>priv_sp := Some (getShaderProgram context PolylineVS PolylineFS attributeIndices),
                       priv_rsOne := Some (createRsOne context),
                       priv_rsTwo := Some (createRsTwo context),
                       priv_rsThree := Some (createRsThree context)\<rparr>
                else c)
      in c1\<lparr>morphTime := 1,
             priv_rsOne := map_option
               (\<lambda>rs. rs\<lparr>rs_lineWidth := priv_clampWidth context (outlineWidth c),
                         rs_depthMask := False, rs_depthTest_enabled := True\<rparr>) (priv_rsOne c1),
             priv_rsTwo := map_option
               (\<lambda>rs. rs\<lparr>rs_lineWidth := priv_clampWidth context (width c),
                         rs_depthTest_enabled := True\<rparr>) (priv_rsTwo c1),
             priv_rsThree := map_option
               (\<lambda>rs. rs\<lparr>rs_lineWidth := priv_clampWidth context (outlineWidth c),
                         rs_depthTest_enabled := True\<rparr>) (priv_rsThree c1)\<rparr>)"

text \<open>The two-primitive world after the client has set the two widths of the collection.\<close>

definition styledWorld :: world where
  "styledWorld = twoPolylines\<lparr>coll := (coll twoPolylines)\<lparr>width := Some 2, outlineWidth := Some 5\<rparr>\<rparr>"




text \<open>The fields that the render-state and vertex-store invariants depend on.\<close>

definition renderView :: "PolylineCollection \<Rightarrow>
    ShaderProgram option \<times> RenderState option \<times> RenderState option \<times> RenderState option \<times>
    VertexArrayFacade option" where
  "renderView c = (priv_sp c, priv_rsOne c, priv_rsTwo c, priv_rsThree c, priv_vaf c)"

text \<open>The invariant of the states a client can reach.\<close>

definition inv :: "world \<Rightarrow> bool" where
  "inv w =
     (wf w \<and> rs_inv (coll w) \<and> vaf_inv (coll w) \<and>
      length (priv_propertiesChanged (coll w)) = NUMBER_OF_PROPERTIES)"

text \<open>
  A sequence of additions and removals: two additions, the removal of the first primitive,
  the same removal again, the removal of \<^verbatim>\<open>null\<close> and of the foreign primitive, and one more
  addition.
\<close>

definition exampleOps :: "operation list" where
  "exampleOps =
     [OpAdd (Some templateA), OpAdd None, OpRemove (Some 1), OpRemove (Some 1), OpRemove None,
      OpRemove (Some 0), OpAdd None]"

text \<open>The dirty notification for the fill colour of primitive 2, sent \<open>2 ^ 32 - 1\<close> times.\<close>

definition wrapOps :: "operation list" where
  "wrapOps = replicate (2 ^ 32 - 1) (OpUpdatePolyline 2 COLOR_INDEX)"

section \<open>Slots and live primitives\<close>

lemma set_live: "set (live xs) = {p. Some p \<in> set xs}"
  by (induction xs rule: live.induct) auto

lemma live_append: "live (xs @ ys) = live xs @ live ys"
  by (induction xs rule: live.induct) auto

lemma live_map_Some: "live (map Some ps) = ps"
  by (induction ps) auto

lemma live_no_None: "None \<notin> set xs \<Longrightarrow> map Some (live xs) = xs"
  by (induction xs rule: live.induct) auto

lemma live_nth_ex: "i < length (live xs) \<Longrightarrow> \<exists>k<length xs. xs ! k = Some (live xs ! i)"
  by (metis in_set_conv_nth mem_Collect_eq nth_mem set_live)

lemma distinct_live:
  "(\<And>i j p. i < length xs \<Longrightarrow> j < length xs \<Longrightarrow> xs ! i = Some p \<Longrightarrow> xs ! j = Some p \<Longrightarrow> i = j)
   \<Longrightarrow> distinct (live xs)"
proof (induction xs rule: live.induct)
  case 1
  then show ?case by simp
next
  case (2 xs)
  have "distinct (live xs)"
  proof (rule 2)
    fix i j p assume "i < length xs" "j < length xs" "xs ! i = Some p" "xs ! j = Some p"
    then have "Suc i = Suc j" using "2.prems" [of "Suc i" "Suc j" p] by simp
    then show "i = j" by simp
  qed
  then show ?case by simp
next
  case (3 q xs)
  have d: "distinct (live xs)"
  proof (rule 3)
    fix i j p assume "i < length xs" "j < length xs" "xs ! i = Some p" "xs ! j = Some p"
    then have "Suc i = Suc j" using "3.prems" [of "Suc i" "Suc j" p] by simp
    then show "i = j" by simp
  qed
  have "q \<notin> set (live xs)"
  proof
    assume "q \<in> set (live xs)"
    then have "Some q \<in> set xs" by (simp add: set_live)
    then obtain j where "j < length xs" "xs ! j = Some q" by (auto simp: in_set_conv_nth)
    then have "0 = Suc j" using "3.prems" [of 0 "Suc j" q] by simp
    then show False by simp
  qed
  with d show ?case by simp
qed

lemma wf_iff:
  "wf w =
     ((\<forall>i<length (priv_polylines (coll w)). \<forall>p. priv_polylines (coll w) ! i = Some p \<longrightarrow>
          p < length (heap w) \<and> pl_collection (heap w ! p) = Some (ident (coll w)) \<and>
          pl_index (heap w ! p) = i) \<and>
      (\<forall>p<length (heap w). pl_collection (heap w ! p) = Some (ident (coll w)) \<longrightarrow>
          pl_index (heap w ! p) < length (priv_polylines (coll w)) \<and>
          priv_polylines (coll w) ! pl_index (heap w ! p) = Some p) \<and>
      (\<not> priv_polylinesRemoved (coll w) \<longrightarrow> None \<notin> set (priv_polylines (coll w))))"
proof -
  have a: "list_all
        (\<lambda>i. case priv_polylines (coll w) ! i of
               None \<Rightarrow> True
             | Some p \<Rightarrow>
                 p < length (heap w) \<and> pl_collection (heap w ! p) = Some (ident (coll w)) \<and>
                 pl_index (heap w ! p) = i)
        [0 ..< length (priv_polylines (coll w))] =
      (\<forall>i<length (priv_polylines (coll w)). \<forall>p. priv_polylines (coll w) ! i = Some p \<longrightarrow>
          p < length (heap w) \<and> pl_collection (heap w ! p) = Some (ident (coll w)) \<and>
          pl_index (heap w ! p) = i)"
    by (auto simp: list_all_iff split: option.splits)
  have b: "list_all
        (\<lambda>p. pl_collection (heap w ! p) \<noteq> Some (ident (coll w)) \<or>
               (pl_index (heap w ! p) < length (priv_polylines (coll w)) \<and>
                priv_polylines (coll w) ! pl_index (heap w ! p) = Some p))
        [0 ..< length (heap w)] =
      (\<forall>p<length (heap w). pl_collection (heap w ! p) = Some (ident (coll w)) \<longrightarrow>
          pl_index (heap w ! p) < length (priv_polylines (coll w)) \<and>
          priv_polylines (coll w) ! pl_index (heap w ! p) = Some p)"
    by (auto simp: list_all_iff)
  show ?thesis unfolding wf_def a b by blast
qed

lemma wf_distinct: "wf w \<Longrightarrow> distinct (live (priv_polylines (coll w)))"
  by (rule distinct_live) (metis wf_iff)

lemma wf_live_member:
  "wf w \<Longrightarrow> (p \<in> set (live (priv_polylines (coll w)))) = contains (Some p) w"
  unfolding wf_iff set_live priv_getCollection_def contains.simps mem_Collect_eq
  by (metis in_set_conv_nth nth_mem)

lemma removeLoop_fst: "fst (removeLoop xs j acc h) = acc @ map Some (live xs)"
  by (induction xs j acc h rule: removeLoop.induct) auto

lemma removeLoop_length: "length (snd (removeLoop xs j acc h)) = length h"
  by (induction xs j acc h rule: removeLoop.induct) auto

lemma removeLoop_other:
  "p \<notin> set (live xs) \<Longrightarrow> snd (removeLoop xs j acc h) ! p = h ! p"
  by (induction xs j acc h rule: removeLoop.induct) auto

lemma removeLoop_collection:
  "pl_collection (snd (removeLoop xs j acc h) ! p) = pl_collection (h ! p)"
proof (induction xs j acc h rule: removeLoop.induct)
  case (3 q rest j polylines h)
  then show ?case
    by (cases "p = q"; cases "q < length h") (simp_all add: list_update_beyond)
qed simp_all

lemma removeLoop_index:
  "distinct (live xs) \<Longrightarrow> set (live xs) \<subseteq> {..<length h} \<Longrightarrow> i < length (live xs) \<Longrightarrow>
   pl_index (snd (removeLoop xs j acc h) ! (live xs ! i)) = j + i"
proof (induction xs j acc h arbitrary: i rule: removeLoop.induct)
  case (3 q rest j polylines h)
  show ?case
  proof (cases i)
    case 0
    with 3 show ?thesis by (simp add: removeLoop_other)
  next
    case (Suc i')
    with 3 show ?thesis by simp
  qed
qed simp_all

lemma wf_polylines_bound:
  "wf w \<Longrightarrow> set (live (priv_polylines (coll w))) \<subseteq> {..<length (heap w)}"
  unfolding wf_iff set_live by (auto simp: in_set_conv_nth)

lemma live_length_le: "length (live xs) \<le> length xs"
  by (induction xs rule: live.induct) auto

section \<open>The membership operations keep the invariant\<close>

lemma wfI:
  assumes "\<And>i p. i < length (priv_polylines (coll w)) \<Longrightarrow> priv_polylines (coll w) ! i = Some p \<Longrightarrow>
             p < length (heap w) \<and> pl_collection (heap w ! p) = Some (ident (coll w)) \<and>
             pl_index (heap w ! p) = i"
    and "\<And>p. p < length (heap w) \<Longrightarrow> pl_collection (heap w ! p) = Some (ident (coll w)) \<Longrightarrow>
             pl_index (heap w ! p) < length (priv_polylines (coll w)) \<and>
             priv_polylines (coll w) ! pl_index (heap w ! p) = Some p"
    and "\<not> priv_polylinesRemoved (coll w) \<Longrightarrow> None \<notin> set (priv_polylines (coll w))"
  shows "wf w"
  using assms unfolding wf_iff by blast

lemma wf_slot:
  "wf w \<Longrightarrow> i < length (priv_polylines (coll w)) \<Longrightarrow> priv_polylines (coll w) ! i = Some p \<Longrightarrow>
   p < length (heap w) \<and> pl_collection (heap w ! p) = Some (ident (coll w)) \<and>
   pl_index (heap w ! p) = i"
  unfolding wf_iff by blast

lemma wf_member:
  "wf w \<Longrightarrow> p < length (heap w) \<Longrightarrow> pl_collection (heap w ! p) = Some (ident (coll w)) \<Longrightarrow>
   pl_index (heap w ! p) < length (priv_polylines (coll w)) \<and>
   priv_polylines (coll w) ! pl_index (heap w ! p) = Some p"
  unfolding wf_iff by blast

lemma wf_no_None:
  "wf w \<Longrightarrow> \<not> priv_polylinesRemoved (coll w) \<Longrightarrow> None \<notin> set (priv_polylines (coll w))"
  unfolding wf_iff by blast

lemma add_coll [simp]:
  "priv_polylines (coll (snd (add t w))) = priv_polylines (coll w) @ [Some (length (heap w))]"
  "ident (coll (snd (add t w))) = ident (coll w)"
  "priv_polylinesRemoved (coll (snd (add t w))) = priv_polylinesRemoved (coll w)"
  "priv_propertiesChanged (coll (snd (add t w))) = priv_propertiesChanged (coll w)"
  "fst (add t w) = length (heap w)"
  by (simp_all add: add_def Let_def)

lemma add_heap [simp]:
  "length (heap (snd (add t w))) = Suc (length (heap w))"
  "p < length (heap w) \<Longrightarrow> heap (snd (add t w)) ! p = heap w ! p"
  "pl_collection (heap (snd (add t w)) ! length (heap w)) = Some (ident (coll w))"
  "pl_index (heap (snd (add t w)) ! length (heap w)) = length (priv_polylines (coll w))"
  by (simp_all add: add_def Let_def nth_append Polyline_new_def)

lemma wf_add: assumes "wf w" shows "wf (snd (add t w))"
proof (rule wfI)
  fix i p
  assume i: "i < length (priv_polylines (coll (snd (add t w))))"
    and p: "priv_polylines (coll (snd (add t w))) ! i = Some p"
  show "p < length (heap (snd (add t w))) \<and>
        pl_collection (heap (snd (add t w)) ! p) = Some (ident (coll (snd (add t w)))) \<and>
        pl_index (heap (snd (add t w)) ! p) = i"
  proof (cases "i < length (priv_polylines (coll w))")
    case True
    with p have "priv_polylines (coll w) ! i = Some p" by (simp add: nth_append)
    from wf_slot [OF assms True this] show ?thesis by simp
  next
    case False
    with i have "i = length (priv_polylines (coll w))" by simp
    with p have "p = length (heap w)" by simp
    with \<open>i = _\<close> show ?thesis by simp
  qed
next
  fix p
  assume p: "p < length (heap (snd (add t w)))"
    and c: "pl_collection (heap (snd (add t w)) ! p) = Some (ident (coll (snd (add t w))))"
  show "pl_index (heap (snd (add t w)) ! p) < length (priv_polylines (coll (snd (add t w)))) \<and>
        priv_polylines (coll (snd (add t w))) ! pl_index (heap (snd (add t w)) ! p) = Some p"
  proof (cases "p < length (heap w)")
    case True
    with c have "pl_collection (heap w ! p) = Some (ident (coll w))" by simp
    from wf_member [OF assms True this] True show ?thesis by (simp add: nth_append)
  next
    case False
    with p have "p = length (heap w)" by simp
    then show ?thesis by simp
  qed
next
  assume "\<not> priv_polylinesRemoved (coll (snd (add t w)))"
  then have "None \<notin> set (priv_polylines (coll w))" using wf_no_None [OF assms] by simp
  then show "None \<notin> set (priv_polylines (coll (snd (add t w))))" by simp
qed

lemma remove_success:
  assumes "wf w" and "contains (Some p) w"
  shows "remove (Some p) w =
    (True, \<lparr>coll = (coll w)\<lparr>priv_polylines := (priv_polylines (coll w))[pl_index (heap w ! p) := None],
                            priv_polylinesRemoved := True, priv_createVertexArray := True\<rparr>,
            heap = (heap w)[p := (heap w ! p)\<lparr>pl_collection := None\<rparr>]\<rparr>)"
proof -
  from assms(2) have "p < length (heap w)" "pl_collection (heap w ! p) = Some (ident (coll w))"
    by (simp_all add: priv_getCollection_def)
  from wf_member [OF assms(1) this]
  have "pl_index (heap w ! p) < length (priv_polylines (coll w))" by simp
  with assms(2) show ?thesis
    by (simp add: js_store_def priv_destroy_def Let_def)
qed

lemma remove_failure: "\<not> contains q w \<Longrightarrow> remove q w = (False, w)"
  by (cases q) auto

declare remove.simps(2) [simp del]

lemma wf_remove: assumes "wf w" shows "wf (snd (remove q w))"
proof (cases "contains q w")
  case False
  with assms show ?thesis by (simp add: remove_failure)
next
  case True
  then obtain p where q: "q = Some p" by (cases q) auto
  let ?ps = "priv_polylines (coll w)"
  let ?h = "heap w"
  let ?k = "pl_index (?h ! p)"
  from True q have pb: "p < length ?h" and pc: "pl_collection (?h ! p) = Some (ident (coll w))"
    by (simp_all add: priv_getCollection_def)
  from wf_member [OF assms pb pc] have kb: "?k < length ?ps" and ks: "?ps ! ?k = Some p"
    by simp_all
  have eq: "snd (remove q w) =
      \<lparr>coll = (coll w)\<lparr>priv_polylines := ?ps[?k := None],
                       priv_polylinesRemoved := True, priv_createVertexArray := True\<rparr>,
       heap = ?h[p := (?h ! p)\<lparr>pl_collection := None\<rparr>]\<rparr>"
    using remove_success [OF assms] True q by simp
  show ?thesis
    unfolding eq
  proof (rule wfI; simp)
    fix i r
    assume i: "i < length ?ps" and r: "?ps[?k := None] ! i = Some r"
    then have ik: "i \<noteq> ?k" by (auto simp: nth_list_update)
    with r have ri: "?ps ! i = Some r" by simp
    from wf_slot [OF assms i ri]
    have rr: "r < length ?h" "pl_collection (?h ! r) = Some (ident (coll w))" "pl_index (?h ! r) = i"
      by simp_all
    with ik have "r \<noteq> p" by auto
    with rr show "r < length ?h \<and>
        pl_collection (?h[p := (?h ! p)\<lparr>pl_collection := None\<rparr>] ! r) = Some (ident (coll w)) \<and>
        pl_index (?h[p := (?h ! p)\<lparr>pl_collection := None\<rparr>] ! r) = i"
      by simp
  next
    fix r
    assume rb: "r < length ?h"
      and rc: "pl_collection (?h[p := (?h ! p)\<lparr>pl_collection := None\<rparr>] ! r) = Some (ident (coll w))"
    then have rp: "r \<noteq> p" by (auto simp: nth_list_update)
    with rc have rc': "pl_collection (?h ! r) = Some (ident (coll w))" by simp
    from wf_member [OF assms rb rc']
    have m: "pl_index (?h ! r) < length ?ps" "?ps ! pl_index (?h ! r) = Some r" by simp_all
    with ks rp have "pl_index (?h ! r) \<noteq> ?k" by auto
    with m rp show "pl_index (?h[p := (?h ! p)\<lparr>pl_collection := None\<rparr>] ! r) < length ?ps \<and>
        ?ps[?k := None] ! pl_index (?h[p := (?h ! p)\<lparr>pl_collection := None\<rparr>] ! r) = Some r"
      by simp
  qed
qed

lemma destroyLoop_length: "length (destroyLoop xs h) = length h"
  by (induction xs h rule: destroyLoop.induct) auto

lemma destroyLoop_other: "p \<notin> set (live xs) \<Longrightarrow> destroyLoop xs h ! p = h ! p"
  by (induction xs h rule: destroyLoop.induct) auto

lemma destroyLoop_index: "pl_index (destroyLoop xs h ! p) = pl_index (h ! p)"
proof (induction xs h rule: destroyLoop.induct)
  case (3 q rest h)
  then show ?case
    by (cases "p = q"; cases "q < length h") (simp_all add: list_update_beyond priv_destroy_def)
qed simp_all

lemma destroyLoop_collection:
  "pl_collection (destroyLoop xs h ! p) = Some c \<Longrightarrow> pl_collection (h ! p) = Some c"
proof (induction xs h rule: destroyLoop.induct)
  case (3 q rest h)
  then show ?case
    by (cases "p = q"; cases "q < length h") (simp_all add: list_update_beyond priv_destroy_def)
qed simp_all

lemma destroyLoop_member:
  "p \<in> set (live xs) \<Longrightarrow> p < length h \<Longrightarrow> pl_collection (destroyLoop xs h ! p) = None"
proof (induction xs h rule: destroyLoop.induct)
  case (3 q rest h)
  show ?case
  proof (cases "p = q")
    case True
    have "pl_collection (destroyLoop rest (h[q := priv_destroy (h ! q)]) ! q) \<noteq> Some c" for c
    proof
      assume "pl_collection (destroyLoop rest (h[q := priv_destroy (h ! q)]) ! q) = Some c"
      from destroyLoop_collection [OF this] 3(3) True show False
        by (simp add: priv_destroy_def)
    qed
    with True show ?thesis by (cases "pl_collection (destroyLoop rest (h[q := priv_destroy (h ! q)]) ! q)") auto
  next
    case False
    with 3 show ?thesis by simp
  qed
qed simp_all

lemma wf_removeAll: assumes "wf w" shows "wf (removeAll w)"
proof (rule wfI)
  fix p
  assume pb: "p < length (heap (removeAll w))"
    and pc: "pl_collection (heap (removeAll w) ! p) = Some (ident (coll (removeAll w)))"
  from pb have pb': "p < length (heap w)"
    by (simp add: removeAll_def priv_destroyPolylines_def Let_def destroyLoop_length)
  from pc have pd: "pl_collection (destroyLoop (priv_polylines (coll w)) (heap w) ! p) = Some (ident (coll w))"
    by (simp add: removeAll_def priv_destroyPolylines_def Let_def)
  from destroyLoop_collection [OF this] have "pl_collection (heap w ! p) = Some (ident (coll w))" .
  from wf_member [OF assms pb' this] have "p \<in> set (live (priv_polylines (coll w)))"
    by (auto simp: set_live in_set_conv_nth)
  from destroyLoop_member [OF this pb'] pd have False by simp
  then show "pl_index (heap (removeAll w) ! p) < length (priv_polylines (coll (removeAll w))) \<and>
        priv_polylines (coll (removeAll w)) ! pl_index (heap (removeAll w) ! p) = Some p" ..
qed (simp_all add: removeAll_def priv_destroyPolylines_def Let_def)

lemma removePolylines_noop:
  "\<not> priv_polylinesRemoved (coll w) \<Longrightarrow> priv_removePolylines w = w"
  by (simp add: priv_removePolylines_def)

lemma removePolylines_coll:
  "priv_polylinesRemoved (coll w) \<Longrightarrow>
   coll (priv_removePolylines w) =
     (coll w)\<lparr>priv_polylinesRemoved := False,
              priv_polylines := map Some (live (priv_polylines (coll w)))\<rparr>"
  by (simp add: priv_removePolylines_def Let_def split_beta removeLoop_fst)

lemma removePolylines_heap:
  "priv_polylinesRemoved (coll w) \<Longrightarrow>
   heap (priv_removePolylines w) = snd (removeLoop (priv_polylines (coll w)) 0 [] (heap w))"
  by (simp add: priv_removePolylines_def Let_def split_beta)

lemma removePolylines_polylines:
  assumes "wf w"
  shows "priv_polylines (coll (priv_removePolylines w)) = map Some (live (priv_polylines (coll w)))"
proof (cases "priv_polylinesRemoved (coll w)")
  case True
  then show ?thesis by (simp add: removePolylines_coll)
next
  case False
  with wf_no_None [OF assms] show ?thesis
    by (simp add: removePolylines_noop live_no_None)
qed

lemma removePolylines_index:
  assumes "wf w" and "i < length (live (priv_polylines (coll w)))"
  shows "pl_index (heap (priv_removePolylines w) ! (live (priv_polylines (coll w)) ! i)) = i"
proof (cases "priv_polylinesRemoved (coll w)")
  case True
  with removeLoop_index [OF wf_distinct [OF assms(1)] wf_polylines_bound [OF assms(1)] assms(2), of 0 "[]"]
  show ?thesis by (simp add: removePolylines_heap)
next
  case False
  from wf_no_None [OF assms(1) False]
  have eq: "map Some (live (priv_polylines (coll w))) = priv_polylines (coll w)"
    by (rule live_no_None)
  from assms(2) have ib: "i < length (priv_polylines (coll w))"
    using live_length_le [of "priv_polylines (coll w)"] by simp
  have "priv_polylines (coll w) ! i = Some (live (priv_polylines (coll w)) ! i)"
    using assms(2) by (subst eq [symmetric]) simp
  from wf_slot [OF assms(1) ib this] False show ?thesis
    by (simp add: removePolylines_noop)
qed

lemma removePolylines_heap_length: "length (heap (priv_removePolylines w)) = length (heap w)"
  by (cases "priv_polylinesRemoved (coll w)")
     (simp_all add: removePolylines_heap removePolylines_noop removeLoop_length)

lemma removePolylines_collection:
  "pl_collection (heap (priv_removePolylines w) ! p) = pl_collection (heap w ! p)"
  by (cases "priv_polylinesRemoved (coll w)")
     (simp_all add: removePolylines_heap removePolylines_noop removeLoop_collection)

lemma removePolylines_ident: "ident (coll (priv_removePolylines w)) = ident (coll w)"
  by (cases "priv_polylinesRemoved (coll w)")
     (simp_all add: removePolylines_coll removePolylines_noop)

lemma removePolylines_flag: "\<not> priv_polylinesRemoved (coll (priv_removePolylines w))"
  by (cases "priv_polylinesRemoved (coll w)")
     (simp_all add: removePolylines_coll removePolylines_noop)

lemma wf_removePolylines: assumes "wf w" shows "wf (priv_removePolylines w)"
proof (rule wfI)
  let ?L = "live (priv_polylines (coll w))"
  let ?w = "priv_removePolylines w"
  {
    fix i p
    assume "i < length (priv_polylines (coll ?w))" and "priv_polylines (coll ?w) ! i = Some p"
    then have i: "i < length ?L" and p: "p = ?L ! i"
      by (simp_all add: removePolylines_polylines [OF assms])
    from i p have "p \<in> set ?L" by simp
    then have "contains (Some p) w" by (simp add: wf_live_member [OF assms])
    then show "p < length (heap ?w) \<and> pl_collection (heap ?w ! p) = Some (ident (coll ?w)) \<and>
        pl_index (heap ?w ! p) = i"
      using removePolylines_index [OF assms i] p
      by (simp add: removePolylines_heap_length removePolylines_collection removePolylines_ident
            priv_getCollection_def)
  next
    fix p
    assume "p < length (heap ?w)"
      and "pl_collection (heap ?w ! p) = Some (ident (coll ?w))"
    then have "contains (Some p) w"
      by (simp add: removePolylines_heap_length removePolylines_collection removePolylines_ident
            priv_getCollection_def)
    then have "p \<in> set ?L" by (simp add: wf_live_member [OF assms])
    then obtain i where i: "i < length ?L" and p: "?L ! i = p" by (auto simp: in_set_conv_nth)
    from removePolylines_index [OF assms i] p i
    show "pl_index (heap ?w ! p) < length (priv_polylines (coll ?w)) \<and>
        priv_polylines (coll ?w) ! pl_index (heap ?w ! p) = Some p"
      by (simp add: removePolylines_polylines [OF assms])
  next
    show "None \<notin> set (priv_polylines (coll ?w))"
      by (simp add: removePolylines_polylines [OF assms] image_iff)
  }
qed

lemma live_tombstone:
  assumes "k < length xs" and "xs ! k = Some p" and "distinct (live xs)"
  shows "live (xs[k := None]) = filter (\<lambda>q. q \<noteq> p) (live xs)"
proof -
  have xs: "xs = take k xs @ Some p # drop (Suc k) xs"
    using assms(1,2) by (metis id_take_nth_drop)
  have l: "live xs = live (take k xs) @ p # live (drop (Suc k) xs)"
    by (subst xs) (simp add: live_append)
  with assms(3) have "p \<notin> set (live (take k xs))" "p \<notin> set (live (drop (Suc k) xs))"
    by auto
  then have "filter (\<lambda>q. q \<noteq> p) (live (take k xs)) = live (take k xs)"
    and "filter (\<lambda>q. q \<noteq> p) (live (drop (Suc k) xs)) = live (drop (Suc k) xs)"
    by (auto intro: filter_True)
  then have f: "filter (\<lambda>q. q \<noteq> p) (live xs) = live (take k xs) @ live (drop (Suc k) xs)"
    by (subst l) simp
  have "xs[k := None] = take k xs @ None # drop (Suc k) xs"
    using assms(1) by (rule upd_conv_take_nth_drop)
  then show ?thesis by (simp add: live_append f)
qed

lemma remove_live:
  assumes "wf w" and "contains (Some p) w"
  shows "live (priv_polylines (coll (snd (remove (Some p) w)))) =
         filter (\<lambda>q. q \<noteq> p) (live (priv_polylines (coll w)))"
proof -
  from assms(2) have "p < length (heap w)" "pl_collection (heap w ! p) = Some (ident (coll w))"
    by (simp_all add: priv_getCollection_def)
  from wf_member [OF assms(1) this]
  have "pl_index (heap w ! p) < length (priv_polylines (coll w))"
    "priv_polylines (coll w) ! pl_index (heap w ! p) = Some p" by simp_all
  from live_tombstone [OF this wf_distinct [OF assms(1)]] show ?thesis
    unfolding remove_success [OF assms] by simp
qed

lemma getLength_live: "wf w \<Longrightarrow> fst (getLength w) = length (live (priv_polylines (coll w)))"
  by (simp add: getLength_def Let_def removePolylines_polylines)

lemma get_live:
  "wf w \<Longrightarrow> get (Some i) w =
     (Inr (if 0 \<le> i \<and> nat i < length (live (priv_polylines (coll w)))
           then Some (live (priv_polylines (coll w)) ! nat i) else None),
      priv_removePolylines w)"
  by (simp add: Let_def removePolylines_polylines js_load_def)

section \<open>Claims about membership\<close>

text \<open>
  Claim C8. \<^verbatim>\<open>get\<close> with an undefined index throws the \<^verbatim>\<open>DeveloperError\<close> "index is
  required." and leaves the whole state as it was: the slots are not compacted and the
  removal-pending flag keeps its value.
\<close>

theorem get_undefined_index:
  "get None w = (Inl (DeveloperError ''index is required.''), w) \<and>
   priv_polylines (coll (snd (get None w))) = priv_polylines (coll w) \<and>
   priv_polylinesRemoved (coll (snd (get None w))) = priv_polylinesRemoved (coll w)"
  by simp

text \<open>
  Claim C10. In a well-formed state, \<^verbatim>\<open>get\<close> with a defined index that is at least the number
  of live primitives returns \<^verbatim>\<open>undefined\<close> and throws nothing. The state after the call is the
  state after \<^verbatim>\<open>_removePolylines\<close>, and the sequence of live primitives is the same as
  before.
\<close>

theorem get_beyond_end:
  assumes "wf w" and "int (length (live (priv_polylines (coll w)))) \<le> index"
  shows "get (Some index) w = (Inr None, priv_removePolylines w) \<and>
         live (priv_polylines (coll (priv_removePolylines w))) = live (priv_polylines (coll w))"
  unfolding get_live [OF assms(1)] using assms
  by (simp add: removePolylines_polylines live_map_Some)

text \<open>
  Claim C5. In a well-formed state, for a primitive \<open>p\<close> that occupies a slot (it was added
  and not yet removed), \<^verbatim>\<open>remove\<close> returns true, puts \<^verbatim>\<open>null\<close> into the slot of \<open>p\<close> and into
  no other, sets \<^verbatim>\<open>_polylinesRemoved\<close> and \<^verbatim>\<open>_createVertexArray\<close>, and clears the
  back-reference of \<open>p\<close>; a second \<^verbatim>\<open>remove\<close> of \<open>p\<close> returns false and changes nothing.
  \<^verbatim>\<open>remove(null)\<close> and \<^verbatim>\<open>remove\<close> of a primitive whose back-reference is not this collection
  return false and change nothing; whenever \<^verbatim>\<open>remove\<close> returns false the state and
  \<^verbatim>\<open>getLength\<close> are unchanged.
\<close>

theorem remove_contract:
  assumes "wf w"
  shows "(Some p \<in> set (priv_polylines (coll w)) \<longrightarrow>
            fst (remove (Some p) w) \<and>
            priv_polylines (coll w) ! pl_index (heap w ! p) = Some p \<and>
            priv_polylines (coll (snd (remove (Some p) w))) =
              (priv_polylines (coll w))[pl_index (heap w ! p) := None] \<and>
            priv_polylinesRemoved (coll (snd (remove (Some p) w))) \<and>
            priv_createVertexArray (coll (snd (remove (Some p) w))) \<and>
            pl_collection (heap (snd (remove (Some p) w)) ! p) = None \<and>
            remove (Some p) (snd (remove (Some p) w)) = (False, snd (remove (Some p) w))) \<and>
         remove None w = (False, w) \<and>
         (q < length (heap w) \<and> pl_collection (heap w ! q) \<noteq> Some (ident (coll w)) \<longrightarrow>
            remove (Some q) w = (False, w)) \<and>
         (\<not> fst (remove x w) \<longrightarrow>
            snd (remove x w) = w \<and> fst (getLength (snd (remove x w))) = fst (getLength w))"
proof -
  have a: "remove (Some q) w = (False, w)"
    if "q < length (heap w) \<and> pl_collection (heap w ! q) \<noteq> Some (ident (coll w))"
    using that by (simp add: remove_failure priv_getCollection_def)
  have b: "snd (remove x w) = w \<and> fst (getLength (snd (remove x w))) = fst (getLength w)"
    if "\<not> fst (remove x w)"
  proof -
    have "\<not> contains x w"
    proof
      assume c: "contains x w"
      then obtain r where "x = Some r" by (cases x) auto
      with c that remove_success [OF assms, of r] show False by simp
    qed
    then show ?thesis by (simp add: remove_failure)
  qed
  have c: "fst (remove (Some p) w) \<and>
            priv_polylines (coll w) ! pl_index (heap w ! p) = Some p \<and>
            priv_polylines (coll (snd (remove (Some p) w))) =
              (priv_polylines (coll w))[pl_index (heap w ! p) := None] \<and>
            priv_polylinesRemoved (coll (snd (remove (Some p) w))) \<and>
            priv_createVertexArray (coll (snd (remove (Some p) w))) \<and>
            pl_collection (heap (snd (remove (Some p) w)) ! p) = None \<and>
            remove (Some p) (snd (remove (Some p) w)) = (False, snd (remove (Some p) w))"
    if "Some p \<in> set (priv_polylines (coll w))"
  proof -
    from that have "p \<in> set (live (priv_polylines (coll w)))" by (simp add: set_live)
    then have m: "contains (Some p) w" by (simp add: wf_live_member [OF assms])
    then have pb: "p < length (heap w)" and pc: "pl_collection (heap w ! p) = Some (ident (coll w))"
      by (simp_all add: priv_getCollection_def)
    note s = remove_success [OF assms m]
    have "\<not> contains (Some p) (snd (remove (Some p) w))"
      using pb by (simp add: s priv_getCollection_def)
    then have "remove (Some p) (snd (remove (Some p) w)) = (False, snd (remove (Some p) w))"
      by (rule remove_failure)
    with wf_member [OF assms pb pc] pb show ?thesis by (simp add: s)
  qed
  from a b c show ?thesis by simp
qed

text \<open>
  Claim C6. In a well-formed state, the state after \<^verbatim>\<open>getLength\<close> or \<^verbatim>\<open>get\<close> is the one after
  \<^verbatim>\<open>_removePolylines\<close>; there the slots are exactly the live primitives in their former
  order, without tombstones and without repetition, and the \<open>k\<close>-th of them has
  \<^verbatim>\<open>_index\<close> \<open>k\<close>. When the live primitives are \<open>a\<close> and \<open>b\<close>, \<^verbatim>\<open>get(0)\<close> after removing \<open>a\<close>
  returns \<open>b\<close>, and after removing \<open>b\<close> it returns \<open>a\<close>.
\<close>

theorem compaction_dense_in_order:
  assumes "wf w"
  shows "snd (getLength w) = priv_removePolylines w \<and>
         snd (get (Some i) w) = priv_removePolylines w \<and>
         priv_polylines (coll (priv_removePolylines w)) = map Some (live (priv_polylines (coll w))) \<and>
         distinct (live (priv_polylines (coll w))) \<and>
         (\<forall>k<length (live (priv_polylines (coll w))).
            pl_index (heap (priv_removePolylines w) ! (live (priv_polylines (coll w)) ! k)) = k) \<and>
         (live (priv_polylines (coll w)) = [a, b] \<longrightarrow>
            fst (get (Some 0) (snd (remove (Some a) w))) = Inr (Some b) \<and>
            fst (get (Some 0) (snd (remove (Some b) w))) = Inr (Some a))"
proof -
  have two: "fst (get (Some 0) (snd (remove (Some a) w))) = Inr (Some b) \<and>
            fst (get (Some 0) (snd (remove (Some b) w))) = Inr (Some a)"
    if l: "live (priv_polylines (coll w)) = [a, b]"
  proof -
    from wf_distinct [OF assms] l have ab: "a \<noteq> b" by simp
    have ca: "contains (Some a) w" and cb: "contains (Some b) w"
      using wf_live_member [OF assms, of a] wf_live_member [OF assms, of b] l by simp_all
    have la: "live (priv_polylines (coll (snd (remove (Some a) w)))) = [b]"
      using remove_live [OF assms ca] l ab by simp
    have lb: "live (priv_polylines (coll (snd (remove (Some b) w)))) = [a]"
      using remove_live [OF assms cb] l ab by simp
    show ?thesis
      using get_live [OF wf_remove [OF assms], of 0 "Some a"]
        get_live [OF wf_remove [OF assms], of 0 "Some b"] la lb
      by simp
  qed
  show ?thesis
    using two removePolylines_index [OF assms] wf_distinct [OF assms]
    by (simp add: getLength_def Let_def removePolylines_polylines [OF assms])
qed

section \<open>Buffer usage\<close>

lemma js_load_store:
  "js_load (js_store xs k v) (int i) = (if i = k then v else js_load xs (int i))"
  by (auto simp: js_load_def js_store_def nth_append nth_list_update)

lemma usageLoop_load:
  "js_load (snd (usageLoop k props bu ch)) (int i) =
     (if k \<le> i \<and> i < NUMBER_OF_PROPERTIES
      then Some (if i < length props \<and> props ! i = 0 then STATIC_DRAW else STREAM_DRAW)
      else js_load bu (int i))"
proof (induction k props bu ch rule: usageLoop.induct)
  case (1 k props bu ch)
  show ?case
  proof (cases "k < NUMBER_OF_PROPERTIES")
    case True
    from 1 [OF True refl refl] True show ?thesis
      by (subst usageLoop.simps) (auto simp: Let_def js_load_store)
  next
    case False
    then show ?thesis by (subst usageLoop.simps) auto
  qed
qed

lemma usageLoop_fst:
  "fst (usageLoop k props bu ch) =
     (ch \<or> (\<exists>i. k \<le> i \<and> i < NUMBER_OF_PROPERTIES \<and>
        js_load bu (int i) \<noteq>
          Some (if i < length props \<and> props ! i = 0 then STATIC_DRAW else STREAM_DRAW)))"
proof (induction k props bu ch rule: usageLoop.induct)
  case (1 k props bu ch)
  let ?new = "\<lambda>i. if i < length props \<and> props ! i = 0 then STATIC_DRAW else STREAM_DRAW"
  let ?P = "\<lambda>i. i < NUMBER_OF_PROPERTIES \<and> js_load bu (int i) \<noteq> Some (?new i)"
  show ?case
  proof (cases "k < NUMBER_OF_PROPERTIES")
    case True
    have split: "(\<exists>i. k \<le> i \<and> ?P i) = (?P k \<or> (\<exists>i. k + 1 \<le> i \<and> ?P i))"
    proof
      assume "\<exists>i. k \<le> i \<and> ?P i"
      then obtain i where i: "k \<le> i" "?P i" by blast
      show "?P k \<or> (\<exists>i. k + 1 \<le> i \<and> ?P i)"
      proof (cases "i = k")
        case True with i show ?thesis by simp
      next
        case False with i have "k + 1 \<le> i" by simp
        with i show ?thesis by blast
      qed
    next
      assume "?P k \<or> (\<exists>i. k + 1 \<le> i \<and> ?P i)"
      then show "\<exists>i. k \<le> i \<and> ?P i"
      proof
        assume "?P k" then show ?thesis by blast
      next
        assume "\<exists>i. k + 1 \<le> i \<and> ?P i"
        then obtain i where "k + 1 \<le> i" "?P i" by blast
        then have "k \<le> i \<and> ?P i" by simp
        then show ?thesis by blast
      qed
    qed
    have step: "fst (usageLoop k props bu ch) =
        fst (usageLoop (k + 1) props (js_store bu k (Some (?new k)))
               (ch \<or> js_load bu (int k) \<noteq> Some (?new k)))"
      using True by (subst usageLoop.simps) (simp add: Let_def)
    have ih: "fst (usageLoop (k + 1) props (js_store bu k (Some (?new k)))
               (ch \<or> js_load bu (int k) \<noteq> Some (?new k))) =
        ((ch \<or> js_load bu (int k) \<noteq> Some (?new k)) \<or>
         (\<exists>i. k + 1 \<le> i \<and> i < NUMBER_OF_PROPERTIES \<and>
            js_load (js_store bu k (Some (?new k))) (int i) \<noteq> Some (?new i)))"
      by (rule 1 [OF True refl refl])
    have same: "(\<exists>i. k + 1 \<le> i \<and> i < NUMBER_OF_PROPERTIES \<and>
            js_load (js_store bu k (Some (?new k))) (int i) \<noteq> Some (?new i)) =
         (\<exists>i. k + 1 \<le> i \<and> ?P i)"
      by (intro ex_cong1 conj_cong refl) (simp add: js_load_store)
    show ?thesis
      unfolding step ih same split using True by blast
  next
    case False
    then show ?thesis by (subst usageLoop.simps) auto
  qed
qed

lemma computeNewBuffersUsage_load:
  "js_load (priv_buffersUsage (coll (snd (computeNewBuffersUsage w)))) (int k) =
     (if k < NUMBER_OF_PROPERTIES
      then Some (if k < length (priv_propertiesChanged (coll w)) \<and>
                    priv_propertiesChanged (coll w) ! k = 0 then STATIC_DRAW else STREAM_DRAW)
      else js_load (priv_buffersUsage (coll w)) (int k))"
  by (simp add: computeNewBuffersUsage_def split_beta usageLoop_load)

lemma computeNewBuffersUsage_frame:
  "(coll (snd (computeNewBuffersUsage w)))\<lparr>priv_buffersUsage := b\<rparr> = (coll w)\<lparr>priv_buffersUsage := b\<rparr>"
  "heap (snd (computeNewBuffersUsage w)) = heap w"
  by (simp_all add: computeNewBuffersUsage_def split_beta)

lemma counters_computeNewBuffersUsage:
  "priv_propertiesChanged (coll (snd (computeNewBuffersUsage w))) = priv_propertiesChanged (coll w)"
  by (simp add: computeNewBuffersUsage_def split_beta)

lemma computeNewBuffersUsage_fst:
  "fst (computeNewBuffersUsage w) =
     (\<exists>i. i < NUMBER_OF_PROPERTIES \<and> js_load (priv_buffersUsage (coll w)) (int i) \<noteq>
          Some (if i < length (priv_propertiesChanged (coll w)) \<and> priv_propertiesChanged (coll w) ! i = 0
                then STATIC_DRAW else STREAM_DRAW))"
  by (simp add: computeNewBuffersUsage_def split_beta usageLoop_fst)

lemma computeNewBuffersUsage_again:
  "\<not> fst (computeNewBuffersUsage (snd (computeNewBuffersUsage w)))"
  by (simp add: computeNewBuffersUsage_fst computeNewBuffersUsage_load
        counters_computeNewBuffersUsage)

text \<open>
  Claim C3, as amended. With the six counters of \<^verbatim>\<open>_propertiesChanged\<close> in place,
  \<^verbatim>\<open>computeNewBuffersUsage\<close> sets the usage of every property kind to \<^verbatim>\<open>STATIC_DRAW\<close> when
  the counter of that kind is zero and to \<^verbatim>\<open>STREAM_DRAW\<close> when it is not; it returns true
  exactly when the usage of some kind differs from the one stored before the call (the
  result of the previous call, since nothing else writes \<^verbatim>\<open>_buffersUsage\<close>); and it changes
  nothing but \<^verbatim>\<open>_buffersUsage\<close>. In particular it leaves the counters as they are: a counter
  holds the notifications accumulated since the collection was constructed, not those since
  the previous call, so a second call that follows with no notification in between gives
  every kind the same usage again and returns false.
\<close>

theorem computeNewBuffersUsage_classifies:
  assumes "length (priv_propertiesChanged (coll w)) = NUMBER_OF_PROPERTIES"
  shows "(\<forall>k<NUMBER_OF_PROPERTIES.
            js_load (priv_buffersUsage (coll (snd (computeNewBuffersUsage w)))) (int k) =
              Some (if priv_propertiesChanged (coll w) ! k = 0 then STATIC_DRAW else STREAM_DRAW)) \<and>
         (fst (computeNewBuffersUsage w) \<longleftrightarrow>
            (\<exists>k<NUMBER_OF_PROPERTIES.
               js_load (priv_buffersUsage (coll (snd (computeNewBuffersUsage w)))) (int k) \<noteq>
               js_load (priv_buffersUsage (coll w)) (int k))) \<and>
         snd (computeNewBuffersUsage w) =
           w\<lparr>coll := (coll w)\<lparr>priv_buffersUsage :=
                priv_buffersUsage (coll (snd (computeNewBuffersUsage w)))\<rparr>\<rparr> \<and>
         priv_propertiesChanged (coll (snd (computeNewBuffersUsage w))) =
           priv_propertiesChanged (coll w) \<and>
         (\<forall>k<NUMBER_OF_PROPERTIES.
            js_load (priv_buffersUsage
                       (coll (snd (computeNewBuffersUsage (snd (computeNewBuffersUsage w)))))) (int k) =
            js_load (priv_buffersUsage (coll (snd (computeNewBuffersUsage w)))) (int k)) \<and>
         \<not> fst (computeNewBuffersUsage (snd (computeNewBuffersUsage w)))"
proof (intro conjI)
  show "\<forall>k<NUMBER_OF_PROPERTIES.
            js_load (priv_buffersUsage (coll (snd (computeNewBuffersUsage w)))) (int k) =
              Some (if priv_propertiesChanged (coll w) ! k = 0 then STATIC_DRAW else STREAM_DRAW)"
    using assms by (simp add: computeNewBuffersUsage_load)
  have "fst (computeNewBuffersUsage w) =
      (\<exists>i. i < NUMBER_OF_PROPERTIES \<and> js_load (priv_buffersUsage (coll w)) (int i) \<noteq>
          Some (if i < length (priv_propertiesChanged (coll w)) \<and> priv_propertiesChanged (coll w) ! i = 0
                then STATIC_DRAW else STREAM_DRAW))"
    by (rule computeNewBuffersUsage_fst)
  also have "\<dots> = (\<exists>k. k < NUMBER_OF_PROPERTIES \<and>
               js_load (priv_buffersUsage (coll (snd (computeNewBuffersUsage w)))) (int k) \<noteq>
               js_load (priv_buffersUsage (coll w)) (int k))"
    by (intro ex_cong1 conj_cong refl) (auto simp: computeNewBuffersUsage_load)
  finally show "fst (computeNewBuffersUsage w) \<longleftrightarrow>
            (\<exists>k<NUMBER_OF_PROPERTIES.
               js_load (priv_buffersUsage (coll (snd (computeNewBuffersUsage w)))) (int k) \<noteq>
               js_load (priv_buffersUsage (coll w)) (int k))"
    by simp
  show "snd (computeNewBuffersUsage w) =
           w\<lparr>coll := (coll w)\<lparr>priv_buffersUsage :=
                priv_buffersUsage (coll (snd (computeNewBuffersUsage w)))\<rparr>\<rparr>"
    by (simp add: computeNewBuffersUsage_def split_beta)
  show "priv_propertiesChanged (coll (snd (computeNewBuffersUsage w))) =
           priv_propertiesChanged (coll w)"
    by (rule counters_computeNewBuffersUsage)
  show "\<forall>k<NUMBER_OF_PROPERTIES.
            js_load (priv_buffersUsage
                       (coll (snd (computeNewBuffersUsage (snd (computeNewBuffersUsage w)))))) (int k) =
            js_load (priv_buffersUsage (coll (snd (computeNewBuffersUsage w)))) (int k)"
    by (simp add: computeNewBuffersUsage_load counters_computeNewBuffersUsage)
  show "\<not> fst (computeNewBuffersUsage (snd (computeNewBuffersUsage w)))"
    by (rule computeNewBuffersUsage_again)
qed

section \<open>Instances\<close>

lemma wf_freshWorld: "wf freshWorld"
  by (simp add: wf_iff freshWorld_def PolylineCollection_new_def Polyline_new_def Let_def)

lemma wf_twoPolylines: "wf twoPolylines"
  unfolding twoPolylines_def by (intro wf_add wf_freshWorld)

lemma twoPolylines_eval:
  "priv_polylines (coll twoPolylines) = [Some 1, Some 2]"
  "length (heap twoPolylines) = 3"
  "ident (coll twoPolylines) = 7"
  "pl_collection (heap twoPolylines ! 0) = Some 8"
  "pl_index (heap twoPolylines ! Suc 0) = 0"
  "pl_index (heap twoPolylines ! 2) = Suc 0"
  "priv_propertiesChanged (coll twoPolylines) = [0, 0, 0, 0, 0, 0]"
  "priv_buffersUsage (coll twoPolylines) = [Some STATIC_DRAW, Some STATIC_DRAW, Some STATIC_DRAW,
                           Some STATIC_DRAW, Some STATIC_DRAW, Some STATIC_DRAW]"
  by (simp_all add: twoPolylines_def freshWorld_def add_def Let_def PolylineCollection_new_def
        Polyline_new_def NUMBER_OF_PROPERTIES_def
        numeral_eq_Suc)

theorem get_beyond_end_witness:
  "wf twoPolylines \<and> int (length (live (priv_polylines (coll twoPolylines)))) \<le> 2 \<and>
   get (Some 2) twoPolylines = (Inr None, priv_removePolylines twoPolylines) \<and>
   live (priv_polylines (coll (priv_removePolylines twoPolylines))) = [1, 2]"
proof -
  have h: "int (length (live (priv_polylines (coll twoPolylines)))) \<le> 2"
    by (simp add: twoPolylines_eval)
  from get_beyond_end [OF wf_twoPolylines h] h wf_twoPolylines show ?thesis
    by (simp add: twoPolylines_eval)
qed

theorem remove_contract_witness:
  "wf twoPolylines \<and> Some 2 \<in> set (priv_polylines (coll twoPolylines)) \<and>
   fst (remove (Some 2) twoPolylines) \<and>
   priv_polylines (coll (snd (remove (Some 2) twoPolylines))) = [Some 1, None] \<and>
   priv_polylinesRemoved (coll (snd (remove (Some 2) twoPolylines))) \<and>
   priv_createVertexArray (coll (snd (remove (Some 2) twoPolylines))) \<and>
   pl_collection (heap (snd (remove (Some 2) twoPolylines)) ! 2) = None \<and>
   remove (Some 2) (snd (remove (Some 2) twoPolylines)) =
     (False, snd (remove (Some 2) twoPolylines)) \<and>
   0 < length (heap twoPolylines) \<and>
   pl_collection (heap twoPolylines ! 0) \<noteq> Some (ident (coll twoPolylines)) \<and>
   remove (Some 0) twoPolylines = (False, twoPolylines) \<and>
   \<not> fst (remove None twoPolylines) \<and>
   fst (getLength (snd (remove None twoPolylines))) = fst (getLength twoPolylines)"
proof -
  have m: "Some 2 \<in> set (priv_polylines (coll twoPolylines))"
    by (simp add: twoPolylines_eval)
  have f: "0 < length (heap twoPolylines) \<and>
      pl_collection (heap twoPolylines ! 0) \<noteq> Some (ident (coll twoPolylines))"
    by (simp add: twoPolylines_eval)
  have n: "\<not> fst (remove None twoPolylines)" by simp
  from remove_contract [OF wf_twoPolylines, of 2 0 None] m f n wf_twoPolylines show ?thesis
    by (simp add: twoPolylines_eval)
qed

theorem compaction_dense_in_order_witness:
  "wf (snd (remove (Some 1) twoPolylines)) \<and>
   priv_polylines (coll (snd (remove (Some 1) twoPolylines))) = [None, Some 2] \<and>
   priv_polylines (coll (snd (getLength (snd (remove (Some 1) twoPolylines))))) = [Some 2] \<and>
   pl_index (heap (snd (getLength (snd (remove (Some 1) twoPolylines)))) ! 2) = 0 \<and>
   live (priv_polylines (coll twoPolylines)) = [1, 2] \<and>
   fst (get (Some 0) (snd (remove (Some 1) twoPolylines))) = Inr (Some 2) \<and>
   fst (get (Some 0) (snd (remove (Some 2) twoPolylines))) = Inr (Some 1)"
proof -
  let ?w = "snd (remove (Some 1) twoPolylines)"
  have w: "wf ?w" by (rule wf_remove [OF wf_twoPolylines])
  have c: "contains (Some 1) twoPolylines"
    by (simp add: twoPolylines_eval twoPolylines_def freshWorld_def add_def Let_def
          Polyline_new_def priv_getCollection_def PolylineCollection_new_def)
  have ps: "priv_polylines (coll ?w) = [None, Some 2]"
    unfolding remove_success [OF wf_twoPolylines c] by (simp add: twoPolylines_eval)
  then have l: "live (priv_polylines (coll ?w)) = [2]" by simp
  have l2: "live (priv_polylines (coll twoPolylines)) = [1, 2]"
    by (simp add: twoPolylines_eval)
  have i: "pl_index (heap (snd (getLength ?w)) ! 2) = 0"
    using compaction_dense_in_order [OF w, of 0 1 2] l by simp
  have p: "priv_polylines (coll (snd (getLength ?w))) = [Some 2]"
    using compaction_dense_in_order [OF w, of 0 1 2] l by simp
  from compaction_dense_in_order [OF wf_twoPolylines, of 0 1 2] l2 w ps i p show ?thesis
    by simp
qed

theorem computeNewBuffersUsage_classifies_witness:
  "length (priv_propertiesChanged (coll (priv_updatePolyline 2 2 twoPolylines))) = NUMBER_OF_PROPERTIES \<and>
   js_load (priv_buffersUsage (coll (snd (computeNewBuffersUsage (priv_updatePolyline 2 2 twoPolylines)))))
     2 = Some STREAM_DRAW \<and>
   js_load (priv_buffersUsage (coll (snd (computeNewBuffersUsage (priv_updatePolyline 2 2 twoPolylines)))))
     3 = Some STATIC_DRAW \<and>
   fst (computeNewBuffersUsage (priv_updatePolyline 2 2 twoPolylines)) \<and>
   priv_propertiesChanged (coll (snd (computeNewBuffersUsage (priv_updatePolyline 2 2 twoPolylines)))) =
     [0, 0, 1, 0, 0, 0] \<and>
   \<not> fst (computeNewBuffersUsage (snd (computeNewBuffersUsage (priv_updatePolyline 2 2 twoPolylines))))"
proof -
  let ?w = "priv_updatePolyline 2 2 twoPolylines"
  have p: "priv_propertiesChanged (coll ?w) = [0, 0, 1, 0, 0, 0]"
    and b: "priv_buffersUsage (coll ?w) = priv_buffersUsage (coll twoPolylines)"
    by (simp_all add: priv_updatePolyline_def Let_def twoPolylines_eval)
  have h: "length (priv_propertiesChanged (coll ?w)) = NUMBER_OF_PROPERTIES"
    by (simp add: p NUMBER_OF_PROPERTIES_def)
  have c: "2 < NUMBER_OF_PROPERTIES" "3 < NUMBER_OF_PROPERTIES"
    by (simp_all add: NUMBER_OF_PROPERTIES_def)
  note t = computeNewBuffersUsage_classifies [OF h]
  have 1: "js_load (priv_buffersUsage (coll (snd (computeNewBuffersUsage ?w)))) 2 = Some STREAM_DRAW"
    using conjunct1 [OF t, rule_format, OF c(1)] by (simp add: p)
  have 2: "js_load (priv_buffersUsage (coll (snd (computeNewBuffersUsage ?w)))) 3 = Some STATIC_DRAW"
    using conjunct1 [OF t, rule_format, OF c(2)] by (simp add: p)
  have "js_load (priv_buffersUsage (coll ?w)) 2 = Some STATIC_DRAW"
    by (simp add: b twoPolylines_eval js_load_def)
  with 1 c(1) have "\<exists>k<NUMBER_OF_PROPERTIES.
      js_load (priv_buffersUsage (coll (snd (computeNewBuffersUsage ?w)))) (int k) \<noteq>
      js_load (priv_buffersUsage (coll ?w)) (int k)"
    by (intro exI [of _ 2]) simp
  with t have 3: "fst (computeNewBuffersUsage ?w)" by blast
  from t have 4: "priv_propertiesChanged (coll (snd (computeNewBuffersUsage ?w))) = [0, 0, 1, 0, 0, 0]"
    unfolding p by blast
  from t have 5: "\<not> fst (computeNewBuffersUsage (snd (computeNewBuffersUsage ?w)))" by blast
  from h 1 2 3 4 5 show ?thesis by simp
qed

text \<open>
  Against claim C3 as stated: the fill colour of primitive 2 is notified once and
  \<^verbatim>\<open>computeNewBuffersUsage\<close> is called, which makes the fill colour \<^verbatim>\<open>STREAM_DRAW\<close> and
  returns true. The next call follows with no notification since the previous one. The
  claim wants the fill colour to be \<^verbatim>\<open>STATIC_DRAW\<close> now and the result to be true; the code
  leaves it \<^verbatim>\<open>STREAM_DRAW\<close> and returns false, because the counter still holds the earlier
  notification.
\<close>

theorem usage_untouched_counterexample:
  "fst (computeNewBuffersUsage (priv_updatePolyline 2 COLOR_INDEX twoPolylines)) \<and>
   js_load (priv_buffersUsage
              (coll (snd (computeNewBuffersUsage (priv_updatePolyline 2 COLOR_INDEX twoPolylines)))))
     (int COLOR_INDEX) = Some STREAM_DRAW \<and>
   priv_propertiesChanged
     (coll (snd (computeNewBuffersUsage (priv_updatePolyline 2 COLOR_INDEX twoPolylines)))) =
     priv_propertiesChanged (coll (priv_updatePolyline 2 COLOR_INDEX twoPolylines)) \<and>
   js_load (priv_buffersUsage
              (coll (snd (computeNewBuffersUsage
                 (snd (computeNewBuffersUsage (priv_updatePolyline 2 COLOR_INDEX twoPolylines)))))))
     (int COLOR_INDEX) = Some STREAM_DRAW \<and>
   \<not> fst (computeNewBuffersUsage
            (snd (computeNewBuffersUsage (priv_updatePolyline 2 COLOR_INDEX twoPolylines))))"
proof -
  let ?w = "priv_updatePolyline 2 2 twoPolylines"
  let ?w1 = "snd (computeNewBuffersUsage ?w)"
  have p: "priv_propertiesChanged (coll ?w) = [0, 0, 1, 0, 0, 0]"
    and b: "priv_buffersUsage (coll ?w) = priv_buffersUsage (coll twoPolylines)"
    by (simp_all add: priv_updatePolyline_def Let_def twoPolylines_eval)
  have c: "2 < NUMBER_OF_PROPERTIES"
    by (simp add: NUMBER_OF_PROPERTIES_def)
  have old: "js_load (priv_buffersUsage (coll ?w)) 2 = Some STATIC_DRAW"
    by (simp add: b twoPolylines_eval js_load_def)
  have 1: "js_load (priv_buffersUsage (coll ?w1)) 2 = Some STREAM_DRAW"
    using computeNewBuffersUsage_load [of ?w 2] c by (simp add: p)
  have "\<exists>i. i < NUMBER_OF_PROPERTIES \<and> js_load (priv_buffersUsage (coll ?w)) (int i) \<noteq>
          Some (if i < length (priv_propertiesChanged (coll ?w)) \<and>
                   priv_propertiesChanged (coll ?w) ! i = 0
                then STATIC_DRAW else STREAM_DRAW)"
    using c old by (intro exI [of _ 2]) (simp add: p)
  then have 0: "fst (computeNewBuffersUsage ?w)"
    by (simp only: computeNewBuffersUsage_fst)
  have 2: "js_load (priv_buffersUsage (coll (snd (computeNewBuffersUsage ?w1)))) 2 =
      Some STREAM_DRAW"
    using computeNewBuffersUsage_load [of ?w1 2] c
    by (simp add: counters_computeNewBuffersUsage p)
  from 0 1 2 computeNewBuffersUsage_again [of ?w] show ?thesis
    by (simp add: COLOR_INDEX_def counters_computeNewBuffersUsage)
qed
section \<open>The per-frame update: what it leaves alone\<close>


lemma writeLoop_length: "length (fst (snd (writeLoop xs h vaf))) = length h"
  by (induction xs h vaf rule: writeLoop.induct) (auto simp: Let_def)

lemma writeLoop_collection:
  "pl_collection (fst (snd (writeLoop xs h vaf)) ! p) = pl_collection (h ! p)"
proof (induction xs h vaf rule: writeLoop.induct)
  case (3 q rest h vaf)
  then show ?case
    by (cases "p = q"; cases "q < length h")
       (simp_all add: Let_def list_update_beyond priv_clean_def)
qed simp_all

lemma writeLoop_index:
  "pl_index (fst (snd (writeLoop xs h vaf)) ! p) = pl_index (h ! p)"
proof (induction xs h vaf rule: writeLoop.induct)
  case (3 q rest h vaf)
  then show ?case
    by (cases "p = q"; cases "q < length h")
       (simp_all add: Let_def list_update_beyond priv_clean_def)
qed simp_all

lemma priv_update_coll:
  "coll (snd (priv_update context w)) =
     (coll w)\<lparr>priv_vaf := priv_vaf (coll (snd (priv_update context w)))\<rparr>"
  by (simp add: priv_update_def Let_def split_beta split: sum.splits option.splits)

lemma priv_update_heap_length: "length (heap (snd (priv_update context w))) = length (heap w)"
  by (simp add: priv_update_def Let_def split_beta writeLoop_length split: sum.splits option.splits)

lemma priv_update_heap_collection:
  "pl_collection (heap (snd (priv_update context w)) ! p) = pl_collection (heap w ! p)"
  by (simp add: priv_update_def Let_def split_beta writeLoop_collection split: sum.splits option.splits)

lemma priv_update_heap_index:
  "pl_index (heap (snd (priv_update context w)) ! p) = pl_index (heap w ! p)"
  by (simp add: priv_update_def Let_def split_beta writeLoop_index split: sum.splits option.splits)

lemma priv_update_view: "clientView (coll (snd (priv_update context w))) = clientView (coll w)"
  by (subst priv_update_coll) (simp add: clientView_def)

lemma update_view: "clientView (coll (snd (update context w))) = clientView (coll w)"
  unfolding update_def Let_def priv_isShown_def
  by (simp add: priv_update_view split: option.splits sum.splits)
     (simp add: clientView_def)

section \<open>The rebuild: what it writes\<close>









section \<open>The per-frame update: the rebuild decision\<close>


lemma priv_update_cong:
  assumes "priv_polylines (coll w) = priv_polylines (coll w')"
    and "priv_buffersUsage (coll w) = priv_buffersUsage (coll w')"
    and "heap w = heap w'" and "priv_vaf (coll w) = priv_vaf (coll w')"
  shows "fst (priv_update context w) = fst (priv_update context w') \<and>
         heap (snd (priv_update context w)) = heap (snd (priv_update context w')) \<and>
         priv_vaf (coll (snd (priv_update context w))) = priv_vaf (coll (snd (priv_update context w')))"
  using assms
  by (simp add: priv_update_def Let_def split_beta split: sum.splits option.splits)

lemma rs_inv_cases:
  assumes "rs_inv c"
  obtains (fresh) "priv_sp c = None"
  | (ready) sp r1 r2 r3 where "priv_sp c = Some sp" "priv_rsOne c = Some r1"
      "priv_rsTwo c = Some r2" "priv_rsThree c = Some r3"
      "rs_colorMask r1 = \<lparr>cm_red = False, cm_green = False, cm_blue = False, cm_alpha = False\<rparr>"
      "rs_blending r1 = ALPHA_BLEND" "rs_stencilTest r1 = stencilOne"
      "rs_blending r2 = ALPHA_BLEND" "rs_stencilTest r2 = stencilTwo"
      "rs_blending r3 = ALPHA_BLEND" "rs_stencilTest r3 = stencilThree"
  using assms unfolding rs_inv_def by (auto split: option.splits)

lemma update_unfold:
  assumes "rs_inv (coll w)"
  shows "update context w =
     (if priv_createVertexArray (coll w) \<or> priv_bufferUsage (coll w) \<noteq> Some (bufferUsage (coll w)) \<or>
         priv_mode (coll w) \<noteq> SCENE3D
      then priv_update context
             (w\<lparr>coll := (prepared context (coll w))
                  \<lparr>priv_createVertexArray := False,
                   priv_bufferUsage := Some (bufferUsage (coll w)),
                   priv_mode := SCENE3D,
                   priv_modelMatrix := modelMatrix (coll w),
                   priv_drawUniformsOne := Some DrawUniformsOne3D,
                   priv_drawUniformsTwo := Some DrawUniformsTwo3D,
                   priv_drawUniformsThree := Some DrawUniformsThree3D\<rparr>\<rparr>)
      else (Inr (), w\<lparr>coll := prepared context (coll w)\<rparr>))"
  using assms
proof (cases rule: rs_inv_cases)
  case fresh
  then show ?thesis
    by (simp add: update_def prepared_def Let_def priv_isShown_def Matrix4_clone_def)
next
  case ready
  then show ?thesis
    by (simp add: update_def prepared_def Let_def priv_isShown_def Matrix4_clone_def)
qed

lemma priv_update_fields [simp]:
  "priv_rsOne (coll (snd (priv_update context w))) = priv_rsOne (coll w)"
  "priv_rsTwo (coll (snd (priv_update context w))) = priv_rsTwo (coll w)"
  "priv_rsThree (coll (snd (priv_update context w))) = priv_rsThree (coll w)"
  "priv_sp (coll (snd (priv_update context w))) = priv_sp (coll w)"
  "morphTime (coll (snd (priv_update context w))) = morphTime (coll w)"
  "priv_createVertexArray (coll (snd (priv_update context w))) = priv_createVertexArray (coll w)"
  "priv_bufferUsage (coll (snd (priv_update context w))) = priv_bufferUsage (coll w)"
  "priv_mode (coll (snd (priv_update context w))) = priv_mode (coll w)"
  "priv_modelMatrix (coll (snd (priv_update context w))) = priv_modelMatrix (coll w)"
  "priv_drawUniformsOne (coll (snd (priv_update context w))) = priv_drawUniformsOne (coll w)"
  "priv_drawUniformsTwo (coll (snd (priv_update context w))) = priv_drawUniformsTwo (coll w)"
  "priv_drawUniformsThree (coll (snd (priv_update context w))) = priv_drawUniformsThree (coll w)"
  by (subst priv_update_coll, simp)+

lemma prepared_frame [simp]:
  "priv_createVertexArray (prepared context c) = priv_createVertexArray c"
  "priv_bufferUsage (prepared context c) = priv_bufferUsage c"
  "priv_mode (prepared context c) = priv_mode c"
  "priv_modelMatrix (prepared context c) = priv_modelMatrix c"
  "priv_vaf (prepared context c) = priv_vaf c"
  "priv_polylines (prepared context c) = priv_polylines c"
  "priv_buffersUsage (prepared context c) = priv_buffersUsage c"
  "morphTime (prepared context c) = 1"
  "clientView (prepared context c) = clientView c"
  by (simp_all add: prepared_def Let_def clientView_def)

lemma prepared_rs:
  assumes "rs_inv c"
  shows "\<exists>r1 r2 r3.
     priv_rsOne (prepared context c) = Some r1 \<and>
     priv_rsTwo (prepared context c) = Some r2 \<and>
     priv_rsThree (prepared context c) = Some r3 \<and>
     rs_lineWidth r1 = priv_clampWidth context (outlineWidth c) \<and>
     rs_lineWidth r2 = priv_clampWidth context (width c) \<and>
     rs_lineWidth r3 = priv_clampWidth context (outlineWidth c) \<and>
     \<not> rs_depthMask r1 \<and> rs_depthTest_enabled r1 \<and> rs_depthTest_enabled r2 \<and>
     rs_depthTest_enabled r3 \<and>
     rs_colorMask r1 = \<lparr>cm_red = False, cm_green = False, cm_blue = False, cm_alpha = False\<rparr> \<and>
     rs_blending r1 = ALPHA_BLEND \<and> rs_stencilTest r1 = stencilOne \<and>
     rs_blending r2 = ALPHA_BLEND \<and> rs_stencilTest r2 = stencilTwo \<and>
     rs_blending r3 = ALPHA_BLEND \<and> rs_stencilTest r3 = stencilThree"
  using assms
proof (cases rule: rs_inv_cases)
  case fresh
  then show ?thesis
    by (simp add: prepared_def Let_def createRsOne_def createRsTwo_def createRsThree_def)
next
  case ready
  then show ?thesis
    by (simp add: prepared_def Let_def)
qed

lemma update_rs:
  assumes "rs_inv (coll w)"
  shows "priv_rsOne (coll (snd (update context w))) = priv_rsOne (prepared context (coll w)) \<and>
         priv_rsTwo (coll (snd (update context w))) = priv_rsTwo (prepared context (coll w)) \<and>
         priv_rsThree (coll (snd (update context w))) = priv_rsThree (prepared context (coll w)) \<and>
         priv_sp (coll (snd (update context w))) = priv_sp (prepared context (coll w)) \<and>
         morphTime (coll (snd (update context w))) = 1"
  unfolding update_unfold [OF assms] by simp

text \<open>
  The snapshot \<^verbatim>\<open>_mode\<close> is the 3D mode in every state a client can reach: the constructor
  sets it so, and \<^verbatim>\<open>update\<close>, the only other function that assigns it, assigns the
  constant 3D mode it works with.
\<close>

lemma mode_update:
  "priv_mode (coll w) = SCENE3D \<Longrightarrow> priv_mode (coll (snd (update context w))) = SCENE3D"
  unfolding update_def Let_def priv_isShown_def
  by (simp split: option.splits sum.splits)

lemma mode_apply_op:
  "priv_mode (coll w) = SCENE3D \<Longrightarrow> priv_mode (coll (snd (apply_op op w))) = SCENE3D"
  by (cases op)
     (simp_all add: add_def removeAll_def priv_destroyPolylines_def priv_removePolylines_def
        priv_updatePolyline_def computeNewBuffersUsage_def mode_update getLength_def
        Let_def split_beta,
      (rename_tac q, case_tac q, simp_all add: remove.simps Let_def),
      (rename_tac i, case_tac i, simp_all add: get.simps priv_removePolylines_def Let_def split_beta))

lemma mode_run:
  "priv_mode (coll w) = SCENE3D \<Longrightarrow> priv_mode (coll (snd (run ops w))) = SCENE3D"
  by (induction ops arbitrary: w) (simp_all add: mode_apply_op)

lemma mode_reachable:
  "priv_mode (coll (snd (run ops \<lparr>coll = PolylineCollection_new i, heap = h\<rparr>))) = SCENE3D"
  by (rule mode_run) (simp add: PolylineCollection_new_def)

section \<open>Rendering\<close>


lemma renderLoop_concat:
  "renderLoop c va = concat (map (\<lambda>s.
      [\<lparr>dc_primitiveType = LINES, dc_shaderProgram = priv_sp c,
        dc_uniformMap = priv_drawUniformsOne c, dc_vertexArray = seg_va s,
        dc_renderState = priv_rsOne c\<rparr>,
       \<lparr>dc_primitiveType = LINES, dc_shaderProgram = priv_sp c,
        dc_uniformMap = priv_drawUniformsTwo c, dc_vertexArray = seg_va s,
        dc_renderState = priv_rsTwo c\<rparr>,
       \<lparr>dc_primitiveType = LINES, dc_shaderProgram = priv_sp c,
        dc_uniformMap = priv_drawUniformsThree c, dc_vertexArray = seg_va s,
        dc_renderState = priv_rsThree c\<rparr>]) va)"
  by (induction va) simp_all

lemma positionLoop_va [simp]: "vaf_va (positionLoop i j ps vaf) = vaf_va vaf"
  by (induction i j ps vaf rule: positionLoop.induct) (simp_all add: vaf_writer_def)

lemma colorLoop_va [simp]: "vaf_va (colorLoop i j ps c vaf) = vaf_va vaf"
  by (induction i j ps c vaf rule: colorLoop.induct) (simp_all add: vaf_writer_def)

lemma writeLoop_va [simp]: "vaf_va (snd (snd (writeLoop xs h vaf))) = vaf_va vaf"
  by (induction xs h vaf rule: writeLoop.induct)
     (simp_all add: Let_def priv_writePolyline_def priv_writeColor_def priv_writePosition_def)

lemma vaf_inv_priv_update: "vaf_inv (coll (snd (priv_update context w))) = 
    (case sizeLoop (priv_polylines (coll w)) (heap w) 0 of Inl e \<Rightarrow> vaf_inv (coll w) | Inr n \<Rightarrow> True)"
  by (simp add: priv_update_def Let_def split_beta vaf_inv_def vaf_commit_def list_all_iff
        VertexArrayFacade_new_def split: sum.splits option.splits)

lemma vaf_inv_cong: "priv_vaf c = priv_vaf c' \<Longrightarrow> vaf_inv c = vaf_inv c'"
  by (simp add: vaf_inv_def)

lemma vaf_inv_update:
  assumes "rs_inv (coll w)" and "vaf_inv (coll w)"
  shows "vaf_inv (coll (snd (update context w)))"
proof -
  have a: "vaf_inv c" if "priv_vaf c = priv_vaf (coll w)" for c
    using assms(2) that by (simp add: vaf_inv_def)
  show ?thesis
    unfolding update_unfold [OF assms(1)]
    by (simp add: vaf_inv_priv_update a split: sum.splits)
qed

lemma rs_inv_update:
  assumes "rs_inv (coll w)"
  shows "rs_inv (coll (snd (update context w)))"
proof -
  from prepared_rs [OF assms, of "context"] update_rs [OF assms, of "context"]
  show ?thesis by (auto simp: rs_inv_def split: option.splits)
qed

text \<open>
  Claim C2, as amended. Take a collection whose render states exist once its shader program
  does and whose vertex store, if any, was committed without index buffer, and suppose that
  after \<^verbatim>\<open>update\<close> a committed vertex store with segments \<open>va\<close> is present. Then \<^verbatim>\<open>render\<close>
  issues, for every segment in order, exactly three draw calls with line-list topology on the
  vertex array of that segment, and no segment carries an index buffer. The render state of
  the first call has all colour writes disabled, the clamped outline width, and a stencil
  test that always passes and replaces the stencil with reference 0 on every outcome; that of
  the second has the clamped fill width and a stencil test that always passes and replaces
  the stencil with reference 1 where the depth test passes, keeping it otherwise; that of the
  third has the clamped outline width, alpha blending, and a stencil test that passes where
  the stencil differs from 1 and keeps the stencil on every outcome.
\<close>

theorem render_three_passes:
  assumes "rs_inv (coll w)" and "vaf_inv (coll w)"
    and "priv_vaf (coll (snd (update context w))) = Some vaf" and "vaf_va vaf = Some va"
  shows "\<exists>r1 r2 r3.
     render (coll (snd (update context w))) =
       concat (map (\<lambda>s.
         [\<lparr>dc_primitiveType = LINES,
           dc_shaderProgram = priv_sp (coll (snd (update context w))),
           dc_uniformMap = priv_drawUniformsOne (coll (snd (update context w))),
           dc_vertexArray = seg_va s, dc_renderState = Some r1\<rparr>,
          \<lparr>dc_primitiveType = LINES,
           dc_shaderProgram = priv_sp (coll (snd (update context w))),
           dc_uniformMap = priv_drawUniformsTwo (coll (snd (update context w))),
           dc_vertexArray = seg_va s, dc_renderState = Some r2\<rparr>,
          \<lparr>dc_primitiveType = LINES,
           dc_shaderProgram = priv_sp (coll (snd (update context w))),
           dc_uniformMap = priv_drawUniformsThree (coll (snd (update context w))),
           dc_vertexArray = seg_va s, dc_renderState = Some r3\<rparr>]) va) \<and>
     list_all (\<lambda>s. va_indexBuffer (seg_va s) = None) va \<and>
     rs_colorMask r1 = \<lparr>cm_red = False, cm_green = False, cm_blue = False, cm_alpha = False\<rparr> \<and>
     rs_lineWidth r1 = priv_clampWidth context (outlineWidth (coll w)) \<and>
     st_enabled (rs_stencilTest r1) \<and>
     st_frontFunction (rs_stencilTest r1) = ALWAYS \<and>
     st_backFunction (rs_stencilTest r1) = ALWAYS \<and>
     st_reference (rs_stencilTest r1) = 0 \<and>
     st_frontOperation (rs_stencilTest r1) = \<lparr>so_fail = REPLACE, so_zFail = REPLACE, so_zPass = REPLACE\<rparr> \<and>
     st_backOperation (rs_stencilTest r1) = \<lparr>so_fail = REPLACE, so_zFail = REPLACE, so_zPass = REPLACE\<rparr> \<and>
     rs_lineWidth r2 = priv_clampWidth context (width (coll w)) \<and>
     st_enabled (rs_stencilTest r2) \<and>
     st_frontFunction (rs_stencilTest r2) = ALWAYS \<and>
     st_backFunction (rs_stencilTest r2) = ALWAYS \<and>
     st_reference (rs_stencilTest r2) = 1 \<and>
     st_frontOperation (rs_stencilTest r2) = \<lparr>so_fail = KEEP, so_zFail = KEEP, so_zPass = REPLACE\<rparr> \<and>
     st_backOperation (rs_stencilTest r2) = \<lparr>so_fail = KEEP, so_zFail = KEEP, so_zPass = REPLACE\<rparr> \<and>
     rs_lineWidth r3 = priv_clampWidth context (outlineWidth (coll w)) \<and>
     rs_blending r3 = ALPHA_BLEND \<and>
     st_enabled (rs_stencilTest r3) \<and>
     st_frontFunction (rs_stencilTest r3) = NOT_EQUAL \<and>
     st_backFunction (rs_stencilTest r3) = NOT_EQUAL \<and>
     st_reference (rs_stencilTest r3) = 1 \<and>
     st_frontOperation (rs_stencilTest r3) = \<lparr>so_fail = KEEP, so_zFail = KEEP, so_zPass = KEEP\<rparr> \<and>
     st_backOperation (rs_stencilTest r3) = \<lparr>so_fail = KEEP, so_zFail = KEEP, so_zPass = KEEP\<rparr>"
proof -
  let ?c' = "coll (snd (update context w))"
  from prepared_rs [OF assms(1), of "context"] update_rs [OF assms(1), of "context"]
  obtain r1 r2 r3 where rs:
    "priv_rsOne ?c' = Some r1" "priv_rsTwo ?c' = Some r2" "priv_rsThree ?c' = Some r3"
    "rs_lineWidth r1 = priv_clampWidth context (outlineWidth (coll w))"
    "rs_lineWidth r2 = priv_clampWidth context (width (coll w))"
    "rs_lineWidth r3 = priv_clampWidth context (outlineWidth (coll w))"
    "rs_colorMask r1 = \<lparr>cm_red = False, cm_green = False, cm_blue = False, cm_alpha = False\<rparr>"
    "rs_stencilTest r1 = stencilOne" "rs_stencilTest r2 = stencilTwo"
    "rs_blending r3 = ALPHA_BLEND" "rs_stencilTest r3 = stencilThree"
    by auto
  have r: "render ?c' = renderLoop ?c' va"
    using assms(3,4) by (simp add: render_def)
  from vaf_inv_update [OF assms(1,2), of "context"] assms(3,4)
  have v: "list_all (\<lambda>s. va_indexBuffer (seg_va s) = None) va"
    by (simp add: vaf_inv_def)
  show ?thesis
    apply (rule exI [of _ r1], rule exI [of _ r2], rule exI [of _ r3])
    unfolding r renderLoop_concat rs
    using v by (simp add: stencilOne_def stencilTwo_def stencilThree_def)
qed

section \<open>The invariant holds in every reachable state\<close>


lemma update_heap_length: "length (heap (snd (update context w))) = length (heap w)"
  unfolding update_def Let_def priv_isShown_def
  by (simp add: priv_update_heap_length split: option.splits sum.splits)

lemma update_heap_collection:
  "pl_collection (heap (snd (update context w)) ! p) = pl_collection (heap w ! p)"
  unfolding update_def Let_def priv_isShown_def
  by (simp add: priv_update_heap_collection split: option.splits sum.splits)

lemma update_heap_index:
  "pl_index (heap (snd (update context w)) ! p) = pl_index (heap w ! p)"
  unfolding update_def Let_def priv_isShown_def
  by (simp add: priv_update_heap_index split: option.splits sum.splits)

lemma wf_cong:
  assumes "ident (coll w') = ident (coll w)"
    and "priv_polylines (coll w') = priv_polylines (coll w)"
    and "priv_polylinesRemoved (coll w') = priv_polylinesRemoved (coll w)"
    and "length (heap w') = length (heap w)"
    and "\<And>p. pl_collection (heap w' ! p) = pl_collection (heap w ! p)"
    and "\<And>p. pl_index (heap w' ! p) = pl_index (heap w ! p)"
  shows "wf w' = wf w"
  unfolding wf_iff assms ..

lemma view_fields:
  assumes "clientView c' = clientView c"
  shows "ident c' = ident c" "priv_polylines c' = priv_polylines c"
    "priv_polylinesRemoved c' = priv_polylinesRemoved c"
    "priv_propertiesChanged c' = priv_propertiesChanged c"
    "priv_buffersUsage c' = priv_buffersUsage c"
    "width c' = width c" "outlineWidth c' = outlineWidth c" "bufferUsage c' = bufferUsage c"
    "modelMatrix c' = modelMatrix c"
  using assms by (simp_all add: clientView_def)

lemma wf_update: "wf (snd (update context w)) = wf w"
  by (rule wf_cong)
     (simp_all add: view_fields [OF update_view] update_heap_length update_heap_collection
        update_heap_index)

lemma render_inv_cong:
  "renderView c' = renderView c \<Longrightarrow> rs_inv c' = rs_inv c \<and> vaf_inv c' = vaf_inv c"
  by (simp add: renderView_def rs_inv_def vaf_inv_def cong: option.case_cong)

lemma renderView_add: "renderView (coll (snd (add t w))) = renderView (coll w)"
  by (simp add: add_def Let_def renderView_def)

lemma renderView_remove: "renderView (coll (snd (remove q w))) = renderView (coll w)"
  by (cases q) (simp_all add: remove.simps Let_def renderView_def)

lemma renderView_removeAll: "renderView (coll (removeAll w)) = renderView (coll w)"
  by (simp add: removeAll_def priv_destroyPolylines_def Let_def renderView_def)

lemma renderView_removePolylines: "renderView (coll (priv_removePolylines w)) = renderView (coll w)"
  by (simp add: priv_removePolylines_def Let_def split_beta renderView_def)

lemma renderView_updatePolyline: "renderView (coll (priv_updatePolyline p k w)) = renderView (coll w)"
  by (simp add: priv_updatePolyline_def Let_def renderView_def)

lemma renderView_computeNewBuffersUsage:
  "renderView (coll (snd (computeNewBuffersUsage w))) = renderView (coll w)"
  by (simp add: computeNewBuffersUsage_def split_beta renderView_def)

lemma counters_add: "priv_propertiesChanged (coll (snd (add t w))) = priv_propertiesChanged (coll w)"
  by (simp add: add_def Let_def)

lemma counters_remove:
  "priv_propertiesChanged (coll (snd (remove q w))) = priv_propertiesChanged (coll w)"
  by (cases q) (simp_all add: remove.simps Let_def)

lemma counters_removeAll: "priv_propertiesChanged (coll (removeAll w)) = priv_propertiesChanged (coll w)"
  by (simp add: removeAll_def priv_destroyPolylines_def Let_def)

lemma counters_removePolylines:
  "priv_propertiesChanged (coll (priv_removePolylines w)) = priv_propertiesChanged (coll w)"
  by (simp add: priv_removePolylines_def Let_def split_beta)

lemma counters_update:
  "priv_propertiesChanged (coll (snd (update context w))) = priv_propertiesChanged (coll w)"
  by (rule view_fields [OF update_view])

lemma counters_updatePolyline:
  "priv_propertiesChanged (coll (priv_updatePolyline p k w)) =
     (if k < length (priv_propertiesChanged (coll w))
      then (priv_propertiesChanged (coll w))[k := priv_propertiesChanged (coll w) ! k + 1]
      else priv_propertiesChanged (coll w))"
  by (simp add: priv_updatePolyline_def Let_def)

lemma counters_apply_op:
  "priv_propertiesChanged (coll (snd (apply_op op w))) =
     (case op of
        OpUpdatePolyline p k \<Rightarrow>
          (if k < length (priv_propertiesChanged (coll w))
           then (priv_propertiesChanged (coll w))[k := priv_propertiesChanged (coll w) ! k + 1]
           else priv_propertiesChanged (coll w))
      | _ \<Rightarrow> priv_propertiesChanged (coll w))"
  by (cases op)
     (simp_all add: counters_add counters_remove counters_removeAll counters_removePolylines
        counters_computeNewBuffersUsage counters_update counters_updatePolyline getLength_def Let_def,
      (rename_tac i, case_tac i, simp_all add: get.simps Let_def counters_removePolylines))

lemma wf_updatePolyline: "wf (priv_updatePolyline p k w) = wf w"
  by (rule wf_cong) (simp_all add: priv_updatePolyline_def Let_def)

lemma wf_computeNewBuffersUsage: "wf (snd (computeNewBuffersUsage w)) = wf w"
  by (rule wf_cong) (simp_all add: computeNewBuffersUsage_def split_beta)

lemma wf_get: "wf w \<Longrightarrow> wf (snd (get i w))"
  by (cases i) (simp_all add: get.simps Let_def wf_removePolylines)

lemma wf_getLength: "wf w \<Longrightarrow> wf (snd (getLength w))"
  by (simp add: getLength_def Let_def wf_removePolylines)

lemma wf_apply_op: "wf w \<Longrightarrow> wf (snd (apply_op op w))"
proof (cases op)
  case (OpSetWidth v)
  assume "wf w"
  moreover have "wf (w\<lparr>coll := (coll w)\<lparr>width := v\<rparr>\<rparr>) = wf w" by (rule wf_cong) simp_all
  ultimately show ?thesis using OpSetWidth by simp
next
  case (OpSetOutlineWidth v)
  assume "wf w"
  moreover have "wf (w\<lparr>coll := (coll w)\<lparr>outlineWidth := v\<rparr>\<rparr>) = wf w" by (rule wf_cong) simp_all
  ultimately show ?thesis using OpSetOutlineWidth by simp
next
  case (OpSetBufferUsage v)
  assume "wf w"
  moreover have "wf (w\<lparr>coll := (coll w)\<lparr>bufferUsage := v\<rparr>\<rparr>) = wf w" by (rule wf_cong) simp_all
  ultimately show ?thesis using OpSetBufferUsage by simp
next
  case (OpSetModelMatrix v)
  assume "wf w"
  moreover have "wf (w\<lparr>coll := (coll w)\<lparr>modelMatrix := v\<rparr>\<rparr>) = wf w" by (rule wf_cong) simp_all
  ultimately show ?thesis using OpSetModelMatrix by simp
qed (simp_all add: wf_add wf_remove wf_removeAll wf_get wf_getLength wf_updatePolyline
       wf_computeNewBuffersUsage wf_update)

lemma render_inv_apply_op:
  assumes "rs_inv (coll w)" and "vaf_inv (coll w)"
  shows "rs_inv (coll (snd (apply_op op w))) \<and> vaf_inv (coll (snd (apply_op op w)))"
proof (cases op)
  case (OpUpdate c)
  with rs_inv_update [OF assms(1)] vaf_inv_update [OF assms] show ?thesis by simp
next
  case (OpGet i)
  have "renderView (coll (snd (get i w))) = renderView (coll w)"
    by (cases i) (simp_all add: get.simps Let_def renderView_removePolylines)
  from render_inv_cong [OF this] assms OpGet show ?thesis by simp
next
  case (OpAdd t)
  from render_inv_cong [OF renderView_add] assms OpAdd show ?thesis by simp
next
  case (OpRemove q)
  from render_inv_cong [OF renderView_remove] assms OpRemove show ?thesis by simp
next
  case OpRemoveAll
  from render_inv_cong [OF renderView_removeAll] assms OpRemoveAll show ?thesis by simp
next
  case OpGetLength
  from render_inv_cong [OF renderView_removePolylines] assms OpGetLength show ?thesis
    by (simp add: getLength_def Let_def)
next
  case (OpUpdatePolyline p k)
  from render_inv_cong [OF renderView_updatePolyline] assms OpUpdatePolyline show ?thesis by simp
next
  case OpComputeNewBuffersUsage
  from render_inv_cong [OF renderView_computeNewBuffersUsage] assms OpComputeNewBuffersUsage
  show ?thesis by simp
next
  case (OpSetWidth v)
  have "renderView ((coll w)\<lparr>width := v\<rparr>) = renderView (coll w)" by (simp add: renderView_def)
  from render_inv_cong [OF this] assms OpSetWidth show ?thesis by simp
next
  case (OpSetOutlineWidth v)
  have "renderView ((coll w)\<lparr>outlineWidth := v\<rparr>) = renderView (coll w)" by (simp add: renderView_def)
  from render_inv_cong [OF this] assms OpSetOutlineWidth show ?thesis by simp
next
  case (OpSetBufferUsage v)
  have "renderView ((coll w)\<lparr>bufferUsage := v\<rparr>) = renderView (coll w)" by (simp add: renderView_def)
  from render_inv_cong [OF this] assms OpSetBufferUsage show ?thesis by simp
next
  case (OpSetModelMatrix v)
  have "renderView ((coll w)\<lparr>modelMatrix := v\<rparr>) = renderView (coll w)" by (simp add: renderView_def)
  from render_inv_cong [OF this] assms OpSetModelMatrix show ?thesis by simp
qed

lemma inv_apply_op: "inv w \<Longrightarrow> inv (snd (apply_op op w))"
  unfolding inv_def
  using wf_apply_op [of w op] render_inv_apply_op [of w op] counters_apply_op [of op w]
  by (auto split: operation.splits)

theorem inv_run: "inv w \<Longrightarrow> inv (snd (run ops w))"
  by (induction ops arbitrary: w) (simp_all add: inv_apply_op)

lemma inv_fresh:
  assumes "list_all (\<lambda>p. pl_collection p \<noteq> Some i) h"
  shows "inv \<lparr>coll = PolylineCollection_new i, heap = h\<rparr>"
  using assms
  by (simp add: inv_def wf_iff rs_inv_def vaf_inv_def PolylineCollection_new_def
        NUMBER_OF_PROPERTIES_def list_all_length)

section \<open>The example worlds, evaluated\<close>


lemma rs_inv_twoPolylines: "rs_inv (coll twoPolylines)"
  by (simp add: rs_inv_def twoPolylines_def freshWorld_def add_def Let_def PolylineCollection_new_def)

lemma twoPolylines_world:
  "twoPolylines =
     \<lparr>coll = (PolylineCollection_new 7)\<lparr>priv_polylines := [Some 1, Some 2],
                                         priv_createVertexArray := True\<rparr>,
      heap = [Polyline_new None 8,
              (Polyline_new (Some templateA) 7)\<lparr>pl_index := 0\<rparr>,
              (Polyline_new (Some templateB) 7)\<lparr>pl_index := 1\<rparr>]\<rparr>"
  by (simp add: twoPolylines_def freshWorld_def add_def Let_def PolylineCollection_new_def)

lemma update_twoPolylines:
  "fst (update exampleContext twoPolylines) = Inr ()"
  "priv_vaf (coll (snd (update exampleContext twoPolylines))) =
     Some \<lparr>vaf_attributes =
             [\<lparr>at_index = 0, at_componentsPerAttribute = 3, at_normalize = False,
               at_componentDatatype = FLOAT, at_usage = Some STATIC_DRAW\<rparr>,
              \<lparr>at_index = 1, at_componentsPerAttribute = 4, at_normalize = True,
               at_componentDatatype = UNSIGNED_BYTE, at_usage = Some STATIC_DRAW\<rparr>,
              \<lparr>at_index = 2, at_componentsPerAttribute = 4, at_normalize = True,
               at_componentDatatype = UNSIGNED_BYTE, at_usage = Some STATIC_DRAW\<rparr>],
           vaf_size = 4,
           vaf_writes =
             [\<lparr>vw_attribute = 0, vw_vertex = 0, vw_components = [1, 2, 3]\<rparr>,
              \<lparr>vw_attribute = 0, vw_vertex = 1, vw_components = [2, 3, 4]\<rparr>,
              \<lparr>vw_attribute = 1, vw_vertex = 0, vw_components = [255, 0, 0, 255]\<rparr>,
              \<lparr>vw_attribute = 1, vw_vertex = 1, vw_components = [255, 0, 0, 255]\<rparr>,
              \<lparr>vw_attribute = 0, vw_vertex = 1, vw_components = [4, 5, 6]\<rparr>,
              \<lparr>vw_attribute = 0, vw_vertex = 2, vw_components = [2, 3, 4]\<rparr>,
              \<lparr>vw_attribute = 1, vw_vertex = 1, vw_components = [0, 255, 0, 255]\<rparr>,
              \<lparr>vw_attribute = 1, vw_vertex = 2, vw_components = [0, 255, 0, 255]\<rparr>],
           vaf_va = Some [\<lparr>seg_va = \<lparr>va_segment = 0, va_indexBuffer = None\<rparr>,
                           seg_indicesCount = 0\<rparr>]\<rparr>"
  unfolding update_unfold [OF rs_inv_twoPolylines]
  by (simp_all add: twoPolylines_world PolylineCollection_new_def Polyline_new_def Let_def
        priv_update_def templateA_def templateB_def noTemplate_def orElse_def
        getPositions_def getColor_def priv_clean_def priv_writePolyline_def
        priv_writePosition_def priv_writeColor_def vaf_writer_def VertexArrayFacade_new_def
        vaf_commit_def numberOfSegments_def exampleContext_def js_load_def
        attributeIndices_position3D_def attributeIndices_color_def
        attributeIndices_outlineColor_def POSITION_INDEX_def COLOR_INDEX_def
        OUTLINE_COLOR_INDEX_def prepared_def)


lemma styledWorld_eval:
  "rs_inv (coll styledWorld)" "vaf_inv (coll styledWorld)"
  "priv_createVertexArray (coll styledWorld)"
  "outlineWidth (coll styledWorld) = Some 5" "width (coll styledWorld) = Some 2"
  "bufferUsage (coll styledWorld) = STATIC_DRAW"
  "modelMatrix (coll styledWorld) = Matrix4_IDENTITY"
  by (simp_all add: styledWorld_def twoPolylines_world rs_inv_def vaf_inv_def
        PolylineCollection_new_def)

lemma update_styledWorld_va:
  "map_option vaf_va (priv_vaf (coll (snd (update exampleContext styledWorld)))) =
     Some (Some [\<lparr>seg_va = \<lparr>va_segment = 0, va_indexBuffer = None\<rparr>, seg_indicesCount = 0\<rparr>])"
  unfolding update_unfold [OF styledWorld_eval(1)]
  by (simp add: styledWorld_def twoPolylines_world PolylineCollection_new_def Polyline_new_def Let_def
        priv_update_def templateA_def templateB_def noTemplate_def orElse_def
        getPositions_def getColor_def priv_clean_def priv_writePolyline_def
        priv_writePosition_def priv_writeColor_def vaf_writer_def VertexArrayFacade_new_def
        vaf_commit_def numberOfSegments_def exampleContext_def)

lemma clamp_example:
  "priv_clampWidth exampleContext (Some 5) = Some 5"
  "priv_clampWidth exampleContext (Some 2) = Some 2"
  by (simp_all add: priv_clampWidth_def exampleContext_def)

text \<open>
  An instance of claim C2: the two-primitive world with widths 2 and 5 renders one segment in
  three passes.
\<close>

theorem render_three_passes_witness:
  "rs_inv (coll styledWorld) \<and> vaf_inv (coll styledWorld) \<and>
   map_option vaf_va (priv_vaf (coll (snd (update exampleContext styledWorld)))) =
     Some (Some [\<lparr>seg_va = \<lparr>va_segment = 0, va_indexBuffer = None\<rparr>, seg_indicesCount = 0\<rparr>]) \<and>
   map dc_primitiveType (render (coll (snd (update exampleContext styledWorld)))) =
     [LINES, LINES, LINES] \<and>
   map dc_vertexArray (render (coll (snd (update exampleContext styledWorld)))) =
     [\<lparr>va_segment = 0, va_indexBuffer = None\<rparr>, \<lparr>va_segment = 0, va_indexBuffer = None\<rparr>,
      \<lparr>va_segment = 0, va_indexBuffer = None\<rparr>] \<and>
   map (\<lambda>d. map_option rs_lineWidth (dc_renderState d))
       (render (coll (snd (update exampleContext styledWorld)))) =
     [Some (Some 5), Some (Some 2), Some (Some 5)] \<and>
   map (\<lambda>d. map_option (st_reference \<circ> rs_stencilTest) (dc_renderState d))
       (render (coll (snd (update exampleContext styledWorld)))) =
     [Some 0, Some 1, Some 1] \<and>
   map (\<lambda>d. map_option (st_frontFunction \<circ> rs_stencilTest) (dc_renderState d))
       (render (coll (snd (update exampleContext styledWorld)))) =
     [Some ALWAYS, Some ALWAYS, Some NOT_EQUAL]"
proof -
  from update_styledWorld_va obtain vaf where
    v: "priv_vaf (coll (snd (update exampleContext styledWorld))) = Some vaf"
    and va: "vaf_va vaf =
      Some [\<lparr>seg_va = \<lparr>va_segment = 0, va_indexBuffer = None\<rparr>, seg_indicesCount = 0\<rparr>]"
    by auto
  from render_three_passes [OF styledWorld_eval(1,2) v va]
  obtain r1 r2 r3 where
    "render (coll (snd (update exampleContext styledWorld))) =
       [\<lparr>dc_primitiveType = LINES,
         dc_shaderProgram = priv_sp (coll (snd (update exampleContext styledWorld))),
         dc_uniformMap = priv_drawUniformsOne (coll (snd (update exampleContext styledWorld))),
         dc_vertexArray = \<lparr>va_segment = 0, va_indexBuffer = None\<rparr>, dc_renderState = Some r1\<rparr>,
        \<lparr>dc_primitiveType = LINES,
         dc_shaderProgram = priv_sp (coll (snd (update exampleContext styledWorld))),
         dc_uniformMap = priv_drawUniformsTwo (coll (snd (update exampleContext styledWorld))),
         dc_vertexArray = \<lparr>va_segment = 0, va_indexBuffer = None\<rparr>, dc_renderState = Some r2\<rparr>,
        \<lparr>dc_primitiveType = LINES,
         dc_shaderProgram = priv_sp (coll (snd (update exampleContext styledWorld))),
         dc_uniformMap = priv_drawUniformsThree (coll (snd (update exampleContext styledWorld))),
         dc_vertexArray = \<lparr>va_segment = 0, va_indexBuffer = None\<rparr>, dc_renderState = Some r3\<rparr>]"
    "rs_lineWidth r1 = Some 5" "rs_lineWidth r2 = Some 2" "rs_lineWidth r3 = Some 5"
    "st_reference (rs_stencilTest r1) = 0" "st_reference (rs_stencilTest r2) = 1"
    "st_reference (rs_stencilTest r3) = 1"
    "st_frontFunction (rs_stencilTest r1) = ALWAYS" "st_frontFunction (rs_stencilTest r2) = ALWAYS"
    "st_frontFunction (rs_stencilTest r3) = NOT_EQUAL"
    by (auto simp: styledWorld_eval clamp_example)
  with styledWorld_eval(1,2) update_styledWorld_va show ?thesis by simp
qed

text \<open>
  Against claim C2 as stated: the three draw calls of the example are made on a vertex array
  that has no index buffer, so none of them uses the shared index buffer.
\<close>

theorem render_index_buffer_counterexample:
  "map (\<lambda>d. va_indexBuffer (dc_vertexArray d))
     (render (coll (snd (update exampleContext styledWorld)))) = [None, None, None] \<and>
   Some (fst (priv_getIndexBuffer exampleContext)) \<notin>
     set (map (\<lambda>d. va_indexBuffer (dc_vertexArray d))
            (render (coll (snd (update exampleContext styledWorld)))))"
proof -
  from update_styledWorld_va obtain vaf where
    v: "priv_vaf (coll (snd (update exampleContext styledWorld))) = Some vaf"
    and va: "vaf_va vaf =
      Some [\<lparr>seg_va = \<lparr>va_segment = 0, va_indexBuffer = None\<rparr>, seg_indicesCount = 0\<rparr>]"
    by auto
  then show ?thesis by (simp add: render_def)
qed



lemma inv_freshWorld: "inv freshWorld"
  unfolding freshWorld_def by (rule inv_fresh) (simp add: Polyline_new_def Let_def)

lemma inv_twoPolylines: "inv twoPolylines"
proof -
  have "inv (snd (run [OpAdd (Some templateA), OpAdd (Some templateB)] freshWorld))"
    by (rule inv_run [OF inv_freshWorld])
  then show ?thesis by (simp add: twoPolylines_def)
qed

text \<open>
  Claim C1, on the code. Two primitives of two positions each, with different colours, are
  added to a fresh collection and \<^verbatim>\<open>update\<close> is called. The rebuild succeeds and creates a
  vertex store of 4 elements with the three attributes, committed. Its writes, in order, are
  the two positions and then the two fill colours of the first primitive at vertices 0 and
  1, and those of the second primitive at vertices 1 and 2: the vertex of a position is the
  slot index of the primitive plus the position's index, so vertex 1 is written by both
  primitives and vertex 3 by none, and no write goes to the outline colour attribute. When
  the first primitive is then removed (which succeeds) and \<^verbatim>\<open>update\<close> is called again, the
  rebuild reads the \<^verbatim>\<open>null\<close> in the slot and \<^verbatim>\<open>update\<close> ends in a \<^verbatim>\<open>TypeError\<close>.
\<close>
theorem rebuild_two_polylines:
  "fst (update exampleContext twoPolylines) = Inr () \<and>
   priv_vaf (coll (snd (update exampleContext twoPolylines))) =
     Some \<lparr>vaf_attributes =
             [\<lparr>at_index = 0, at_componentsPerAttribute = 3, at_normalize = False,
               at_componentDatatype = FLOAT, at_usage = Some STATIC_DRAW\<rparr>,
              \<lparr>at_index = 1, at_componentsPerAttribute = 4, at_normalize = True,
               at_componentDatatype = UNSIGNED_BYTE, at_usage = Some STATIC_DRAW\<rparr>,
              \<lparr>at_index = 2, at_componentsPerAttribute = 4, at_normalize = True,
               at_componentDatatype = UNSIGNED_BYTE, at_usage = Some STATIC_DRAW\<rparr>],
           vaf_size = 4,
           vaf_writes =
             [\<lparr>vw_attribute = 0, vw_vertex = 0, vw_components = [1, 2, 3]\<rparr>,
              \<lparr>vw_attribute = 0, vw_vertex = 1, vw_components = [2, 3, 4]\<rparr>,
              \<lparr>vw_attribute = 1, vw_vertex = 0, vw_components = [255, 0, 0, 255]\<rparr>,
              \<lparr>vw_attribute = 1, vw_vertex = 1, vw_components = [255, 0, 0, 255]\<rparr>,
              \<lparr>vw_attribute = 0, vw_vertex = 1, vw_components = [4, 5, 6]\<rparr>,
              \<lparr>vw_attribute = 0, vw_vertex = 2, vw_components = [2, 3, 4]\<rparr>,
              \<lparr>vw_attribute = 1, vw_vertex = 1, vw_components = [0, 255, 0, 255]\<rparr>,
              \<lparr>vw_attribute = 1, vw_vertex = 2, vw_components = [0, 255, 0, 255]\<rparr>],
           vaf_va = Some [\<lparr>seg_va = \<lparr>va_segment = 0, va_indexBuffer = None\<rparr>,
                           seg_indicesCount = 0\<rparr>]\<rparr> \<and>
   fst (remove (Some 1) (snd (update exampleContext twoPolylines))) \<and>
   fst (update exampleContext (snd (remove (Some 1) (snd (update exampleContext twoPolylines))))) =
     Inl TypeError"
proof -
  let ?w1 = "snd (update exampleContext twoPolylines)"
  let ?w2 = "snd (remove (Some 1) ?w1)"
  have i1: "inv ?w1"
    using inv_run [OF inv_twoPolylines, of "[OpUpdate exampleContext]"] by simp
  then have wf1: "wf ?w1" by (simp add: inv_def)
  have c: "contains (Some 1) ?w1"
    by (simp add: update_heap_length update_heap_collection view_fields [OF update_view]
          priv_getCollection_def twoPolylines_world Polyline_new_def Let_def
          PolylineCollection_new_def)
  have r: "fst (remove (Some 1) ?w1)"
    unfolding remove_success [OF wf1 c] by simp
  have ps: "priv_polylines (coll ?w2) = [None, Some 2]"
    unfolding remove_success [OF wf1 c]
    by (simp add: update_heap_index view_fields [OF update_view] twoPolylines_world)
  have cv: "priv_createVertexArray (coll ?w2)"
    unfolding remove_success [OF wf1 c] by simp
  have i2: "inv ?w2"
    using inv_run [OF i1, of "[OpRemove (Some 1)]"] by simp
  then have rs2: "rs_inv (coll ?w2)" by (simp add: inv_def)
  have "fst (update exampleContext ?w2) = Inl TypeError"
    unfolding update_unfold [OF rs2] using cv
    by (simp add: priv_update_def Let_def ps del: One_nat_def)
  with update_twoPolylines r show ?thesis by simp
qed


text \<open>
  Read off the writes of the rebuild above: none to the outline colour, none to vertex 3, and
  two positions of different primitives to vertex 1.
\<close>

theorem rebuild_two_polylines_witness:
  "filter (\<lambda>v. vw_attribute v = attributeIndices_outlineColor)
     (vaf_writes (the (priv_vaf (coll (snd (update exampleContext twoPolylines)))))) = [] \<and>
   filter (\<lambda>v. vw_vertex v = 3)
     (vaf_writes (the (priv_vaf (coll (snd (update exampleContext twoPolylines)))))) = [] \<and>
   map vw_components
     (filter (\<lambda>v. vw_attribute v = attributeIndices_position3D \<and> vw_vertex v = 1)
        (vaf_writes (the (priv_vaf (coll (snd (update exampleContext twoPolylines))))))) =
     [[2, 3, 4], [4, 5, 6]]"
  using rebuild_two_polylines
  by (simp add: attributeIndices_outlineColor_def attributeIndices_position3D_def)






section \<open>Sequences of additions and removals\<close>


lemma live_add:
  "live (priv_polylines (coll (snd (add t w)))) = live (priv_polylines (coll w)) @ [length (heap w)]"
  by (simp add: live_append)

lemma remove_heap_length: "length (heap (snd (remove q w))) = length (heap w)"
  by (cases q) (simp_all add: remove.simps Let_def)

lemma run_add_remove:
  assumes "wf w" and "list_all isAddRemove ops"
  shows "wf (snd (run ops w)) \<and>
         set (live (priv_polylines (coll (snd (run ops w))))) =
           (set (live (priv_polylines (coll w))) \<union> set (addedOf (fst (run ops w)))) -
           set (removedOf (fst (run ops w))) \<and>
         (\<forall>p \<in> set (addedOf (fst (run ops w))). length (heap w) \<le> p) \<and>
         distinct (addedOf (fst (run ops w)))"
  using assms
proof (induction ops arbitrary: w)
  case Nil
  then show ?case by simp
next
  case (Cons op ops)
  show ?case
  proof (cases op)
    case (OpAdd t)
    let ?next = "snd (add t w)"
    have wf1: "wf ?next" by (rule wf_add [OF Cons.prems(1)])
    from Cons.prems(2) have "list_all isAddRemove ops" by simp
    from Cons.IH [OF wf1 this]
    have ih: "wf (snd (run ops ?next))"
      "set (live (priv_polylines (coll (snd (run ops ?next))))) =
         (set (live (priv_polylines (coll ?next))) \<union> set (addedOf (fst (run ops ?next)))) -
         set (removedOf (fst (run ops ?next)))"
      "\<forall>p \<in> set (addedOf (fst (run ops ?next))). length (heap ?next) \<le> p"
      "distinct (addedOf (fst (run ops ?next)))"
      by simp_all
    from ih(3) have fresh: "length (heap w) \<notin> set (addedOf (fst (run ops ?next)))"
      by auto
    from ih(3) have ge: "\<forall>p \<in> set (addedOf (fst (run ops ?next))). length (heap w) \<le> p"
      by auto
    show ?thesis
      using ih fresh ge unfolding OpAdd
      by (auto simp: live_append)
  next
    case (OpRemove q)
    let ?next = "snd (remove q w)"
    have wf1: "wf ?next" by (rule wf_remove [OF Cons.prems(1)])
    from Cons.prems(2) have "list_all isAddRemove ops" by simp
    from Cons.IH [OF wf1 this]
    have ih: "wf (snd (run ops ?next))"
      "set (live (priv_polylines (coll (snd (run ops ?next))))) =
         (set (live (priv_polylines (coll ?next))) \<union> set (addedOf (fst (run ops ?next)))) -
         set (removedOf (fst (run ops ?next)))"
      "\<forall>p \<in> set (addedOf (fst (run ops ?next))). length (heap w) \<le> p"
      "distinct (addedOf (fst (run ops ?next)))"
      by (simp_all add: remove_heap_length)
    show ?thesis
    proof (cases "contains q w")
      case False
      then have "remove q w = (False, w)" by (rule remove_failure)
      then show ?thesis
        using ih unfolding OpRemove by (cases q) simp_all
    next
      case True
      then obtain p where q: "q = Some p" by (cases q) auto
      from True q have pb: "p < length (heap w)" by simp
      with ih(3) have pa: "p \<notin> set (addedOf (fst (run ops ?next)))" by auto
      have l: "set (live (priv_polylines (coll ?next))) = set (live (priv_polylines (coll w))) - {p}"
        using remove_live [OF Cons.prems(1)] True q by auto
      have t: "fst (remove q w)"
        using remove_success [OF Cons.prems(1)] True q by simp
      show ?thesis
        using ih pa t l unfolding OpRemove q
        by auto
    qed
  qed (use Cons.prems(2) in simp_all)
qed

text \<open>
  Claim C7. Start with a new collection, beside any primitives of other collections, and
  perform any sequence of \<^verbatim>\<open>add\<close> and \<^verbatim>\<open>remove\<close> calls. Then \<^verbatim>\<open>getLength\<close> returns the number of
  primitives that \<^verbatim>\<open>add\<close> returned and for which no \<^verbatim>\<open>remove\<close> returned true; the primitives
  that \<^verbatim>\<open>add\<close> returned are pairwise different, so each is counted once.
\<close>
theorem getLength_counts:
  assumes "list_all isAddRemove ops" and "list_all (\<lambda>p. pl_collection p \<noteq> Some i) h"
  shows "fst (getLength (snd (run ops \<lparr>coll = PolylineCollection_new i, heap = h\<rparr>))) =
           length (filter (\<lambda>p. p \<notin> set (removedOf (fst (run ops \<lparr>coll = PolylineCollection_new i, heap = h\<rparr>))))
                     (addedOf (fst (run ops \<lparr>coll = PolylineCollection_new i, heap = h\<rparr>)))) \<and>
         distinct (addedOf (fst (run ops \<lparr>coll = PolylineCollection_new i, heap = h\<rparr>)))"
proof -
  let ?init = "\<lparr>coll = PolylineCollection_new i, heap = h\<rparr>"
  let ?w = "snd (run ops ?init)"
  let ?A = "addedOf (fst (run ops ?init))"
  let ?R = "removedOf (fst (run ops ?init))"
  have wf0: "wf ?init" using inv_fresh [OF assms(2)] by (simp add: inv_def)
  have l0: "live (priv_polylines (coll ?init)) = []" by (simp add: PolylineCollection_new_def)
  from run_add_remove [OF wf0 assms(1)] l0
  have wf: "wf ?w" and s: "set (live (priv_polylines (coll ?w))) = set ?A - set ?R"
    and d: "distinct ?A"
    by simp_all
  have "fst (getLength ?w) = length (live (priv_polylines (coll ?w)))"
    by (rule getLength_live [OF wf])
  also have "\<dots> = card (set (live (priv_polylines (coll ?w))))"
    using wf_distinct [OF wf] by (simp add: distinct_card)
  also have "\<dots> = card (set (filter (\<lambda>p. p \<notin> set ?R) ?A))"
    unfolding s by (rule arg_cong [of _ _ card]) auto
  also have "\<dots> = length (filter (\<lambda>p. p \<notin> set ?R) ?A)"
    by (rule distinct_card) (simp add: d)
  finally show ?thesis using d by simp
qed



lemma run_exampleOps:
  "addedOf (fst (run exampleOps freshWorld)) = [1, 2, 3]"
  "removedOf (fst (run exampleOps freshWorld)) = [1]"
  by (simp_all add: exampleOps_def freshWorld_def add_def Let_def remove.simps
        PolylineCollection_new_def Polyline_new_def priv_getCollection_def js_store_def
        priv_destroy_def)

text \<open>
  An instance of claim C7: three additions and one successful removal leave a length of 2.
\<close>

theorem getLength_counts_witness:
  "list_all isAddRemove exampleOps \<and>
   list_all (\<lambda>p. pl_collection p \<noteq> Some 7) [Polyline_new None 8] \<and>
   addedOf (fst (run exampleOps freshWorld)) = [1, 2, 3] \<and>
   removedOf (fst (run exampleOps freshWorld)) = [1] \<and>
   fst (getLength (snd (run exampleOps freshWorld))) = 2"
proof -
  have a: "list_all isAddRemove exampleOps" by (simp add: exampleOps_def)
  have b: "list_all (\<lambda>p. pl_collection p \<noteq> Some 7) [Polyline_new None 8]"
    by (simp add: Polyline_new_def Let_def)
  from getLength_counts [OF a b] a b show ?thesis
    unfolding freshWorld_def [symmetric] by (simp add: run_exampleOps)
qed

section \<open>The mutation counters over operation sequences\<close>

lemma counters_length_apply_op:
  "length (priv_propertiesChanged (coll (snd (apply_op op w)))) =
   length (priv_propertiesChanged (coll w))"
  by (simp add: counters_apply_op split: operation.splits)

lemma counters_run:
  "k < length (priv_propertiesChanged (coll w)) \<Longrightarrow>
   length (priv_propertiesChanged (coll (snd (run ops w)))) = length (priv_propertiesChanged (coll w)) \<and>
   priv_propertiesChanged (coll (snd (run ops w))) ! k =
     priv_propertiesChanged (coll w) ! k + of_nat (notifications k ops)"
proof (induction ops arbitrary: w)
  case Nil
  then show ?case by simp
next
  case (Cons op ops)
  let ?w1 = "snd (apply_op op w)"
  have len: "length (priv_propertiesChanged (coll ?w1)) = length (priv_propertiesChanged (coll w))"
    by (rule counters_length_apply_op)
  with Cons.prems have "k < length (priv_propertiesChanged (coll ?w1))" by simp
  from Cons.IH [OF this] len
  have ih: "length (priv_propertiesChanged (coll (snd (run ops ?w1)))) =
        length (priv_propertiesChanged (coll w))"
    "priv_propertiesChanged (coll (snd (run ops ?w1))) ! k =
       priv_propertiesChanged (coll ?w1) ! k + of_nat (notifications k ops)"
    by simp_all
  have step: "priv_propertiesChanged (coll ?w1) ! k + of_nat (notifications k ops) =
      priv_propertiesChanged (coll w) ! k + of_nat (notifications k (op # ops))"
    unfolding counters_apply_op using Cons.prems
    by (cases op) (simp_all add: nth_list_update)
  from ih step show ?case by simp
qed

lemma word32_nonzero_add:
  fixes x :: "32 word"
  assumes "x \<noteq> 0" and "unat x + n < 2 ^ 32"
  shows "x + of_nat n \<noteq> 0"
proof
  assume z: "x + of_nat n = 0"
  from assms(2) have n: "n < 2 ^ 32" by simp
  have "unat (x + of_nat n) = (unat x + unat (of_nat n :: 32 word)) mod 2 ^ 32"
    by (simp add: unat_word_ariths)
  also have "unat (of_nat n :: 32 word) = n"
    using n by (simp add: unat_of_nat)
  also have "(unat x + n) mod 2 ^ 32 = unat x + n"
    using assms(2) by simp
  finally have "unat x + n = 0" using z by simp
  then have "unat x = 0" by simp
  with assms(1) show False by (simp add: unat_eq_0)
qed



lemma notifications_replicate:
  "notifications k (replicate n (OpUpdatePolyline p k)) = n"
  by (induction n) simp_all

text \<open>
  Claim C9, as amended. Let \<^verbatim>\<open>computeNewBuffersUsage\<close> have classified property kind \<open>k\<close> as
  \<^verbatim>\<open>STREAM_DRAW\<close>, and let any sequence of operations follow (\<^verbatim>\<open>add\<close>, \<^verbatim>\<open>remove\<close>,
  \<^verbatim>\<open>removeAll\<close>, \<^verbatim>\<open>get\<close>, \<^verbatim>\<open>getLength\<close>, \<^verbatim>\<open>update\<close>, \<^verbatim>\<open>computeNewBuffersUsage\<close>, assignments
  to the public fields, dirty notifications). The counter of kind \<open>k\<close> is then its former
  value plus the number of dirty notifications for \<open>k\<close> in the sequence, in 32-bit unsigned
  arithmetic: no operation but the notification changes it, and none resets it. If the
  former value plus that number stays below \<open>2 ^ 32\<close>, the next \<^verbatim>\<open>computeNewBuffersUsage\<close>
  classifies \<open>k\<close> as \<^verbatim>\<open>STREAM_DRAW\<close> again.
\<close>

theorem usage_monotone_below_wrap:
  assumes "k < NUMBER_OF_PROPERTIES"
    and "length (priv_propertiesChanged (coll w)) = NUMBER_OF_PROPERTIES"
    and "js_load (priv_buffersUsage (coll (snd (computeNewBuffersUsage w)))) (int k) = Some STREAM_DRAW"
    and "unat (priv_propertiesChanged (coll w) ! k) + notifications k ops < 2 ^ 32"
  shows "priv_propertiesChanged (coll (snd (run ops (snd (computeNewBuffersUsage w))))) ! k =
           priv_propertiesChanged (coll w) ! k + of_nat (notifications k ops) \<and>
         js_load (priv_buffersUsage (coll (snd (computeNewBuffersUsage
            (snd (run ops (snd (computeNewBuffersUsage w)))))))) (int k) = Some STREAM_DRAW"
proof -
  let ?w1 = "snd (computeNewBuffersUsage w)"
  let ?w2 = "snd (run ops ?w1)"
  have c1: "priv_propertiesChanged (coll ?w1) = priv_propertiesChanged (coll w)"
    by (rule counters_computeNewBuffersUsage)
  from assms(1,2) have kb: "k < length (priv_propertiesChanged (coll ?w1))"
    by (simp add: c1)
  from counters_run [OF kb, of ops]
  have len: "length (priv_propertiesChanged (coll ?w2)) = NUMBER_OF_PROPERTIES"
    and val: "priv_propertiesChanged (coll ?w2) ! k =
      priv_propertiesChanged (coll w) ! k + of_nat (notifications k ops)"
    by (simp_all add: c1 assms(2))
  from assms(1,2,3) have nz: "priv_propertiesChanged (coll w) ! k \<noteq> 0"
    by (simp add: computeNewBuffersUsage_load split: if_splits)
  from word32_nonzero_add [OF nz assms(4)] val
  have "priv_propertiesChanged (coll ?w2) ! k \<noteq> 0" by simp
  with assms(1) len
  have "js_load (priv_buffersUsage (coll (snd (computeNewBuffersUsage ?w2)))) (int k) = Some STREAM_DRAW"
    by (simp add: computeNewBuffersUsage_load)
  with val show ?thesis by simp
qed

lemma twoPolylines_counters:
  "priv_propertiesChanged (coll twoPolylines) = [0, 0, 0, 0, 0, 0]"
  by (simp add: twoPolylines_world PolylineCollection_new_def NUMBER_OF_PROPERTIES_def
        numeral_eq_Suc)

text \<open>
  An instance of claim C9: one notification before the first classification and one after,
  followed by \<^verbatim>\<open>removeAll\<close> and \<^verbatim>\<open>getLength\<close>.
\<close>

theorem usage_monotone_below_wrap_witness:
  "2 < NUMBER_OF_PROPERTIES \<and>
   length (priv_propertiesChanged (coll (priv_updatePolyline 2 2 twoPolylines))) = NUMBER_OF_PROPERTIES \<and>
   js_load (priv_buffersUsage (coll (snd (computeNewBuffersUsage (priv_updatePolyline 2 2 twoPolylines))))) 2 =
     Some STREAM_DRAW \<and>
   unat (priv_propertiesChanged (coll (priv_updatePolyline 2 2 twoPolylines)) ! 2) +
     notifications 2 [OpUpdatePolyline 2 2, OpRemoveAll, OpGetLength] < 2 ^ 32 \<and>
   priv_propertiesChanged (coll (snd (run [OpUpdatePolyline 2 2, OpRemoveAll, OpGetLength]
     (snd (computeNewBuffersUsage (priv_updatePolyline 2 2 twoPolylines)))))) ! 2 = 2 \<and>
   js_load (priv_buffersUsage (coll (snd (computeNewBuffersUsage
     (snd (run [OpUpdatePolyline 2 2, OpRemoveAll, OpGetLength]
        (snd (computeNewBuffersUsage (priv_updatePolyline 2 2 twoPolylines))))))))) 2 = Some STREAM_DRAW"
proof -
  let ?w = "priv_updatePolyline 2 2 twoPolylines"
  have p: "priv_propertiesChanged (coll ?w) = [0, 0, 1, 0, 0, 0]"
    by (simp add: priv_updatePolyline_def Let_def twoPolylines_counters)
  have a: "2 < NUMBER_OF_PROPERTIES" by (simp add: NUMBER_OF_PROPERTIES_def)
  have b: "length (priv_propertiesChanged (coll ?w)) = NUMBER_OF_PROPERTIES"
    by (simp add: p NUMBER_OF_PROPERTIES_def)
  have c: "js_load (priv_buffersUsage (coll (snd (computeNewBuffersUsage ?w)))) (int 2) = Some STREAM_DRAW"
    using a computeNewBuffersUsage_load [of ?w 2] by (simp add: p)
  have d: "unat (priv_propertiesChanged (coll ?w) ! 2) +
     notifications 2 [OpUpdatePolyline 2 2, OpRemoveAll, OpGetLength] < 2 ^ 32"
    by (simp add: p)
  from usage_monotone_below_wrap [OF a b c d] a b c d show ?thesis
    by (simp add: p)
qed

text \<open>
  Against claim C9 as stated: after \<open>2 ^ 32 - 1\<close> notifications for the fill colour the
  counter is \<open>2 ^ 32 - 1\<close> and the kind is classified \<^verbatim>\<open>STREAM_DRAW\<close>; one more notification
  wraps the counter to zero, and the next call classifies the kind \<^verbatim>\<open>STATIC_DRAW\<close>.
\<close>

theorem usage_wraps_counterexample:
  "js_load (priv_buffersUsage (coll (snd (computeNewBuffersUsage (snd (run wrapOps twoPolylines))))))
     (int COLOR_INDEX) = Some STREAM_DRAW \<and>
   js_load (priv_buffersUsage (coll (snd (computeNewBuffersUsage
     (priv_updatePolyline 2 COLOR_INDEX
        (snd (computeNewBuffersUsage (snd (run wrapOps twoPolylines)))))))))
     (int COLOR_INDEX) = Some STATIC_DRAW"
proof -
  let ?w = "snd (run wrapOps twoPolylines)"
  have kb: "COLOR_INDEX < length (priv_propertiesChanged (coll twoPolylines))"
    by (simp add: twoPolylines_counters COLOR_INDEX_def)
  from counters_run [OF kb, of wrapOps]
  have len: "length (priv_propertiesChanged (coll ?w)) = 6"
    and val: "priv_propertiesChanged (coll ?w) ! COLOR_INDEX = - 1"
    by (simp_all add: twoPolylines_counters wrapOps_def notifications_replicate COLOR_INDEX_def)
  have ci: "COLOR_INDEX < NUMBER_OF_PROPERTIES"
    by (simp add: COLOR_INDEX_def NUMBER_OF_PROPERTIES_def)
  have 1: "js_load (priv_buffersUsage (coll (snd (computeNewBuffersUsage ?w)))) (int COLOR_INDEX) =
      Some STREAM_DRAW"
    using ci val computeNewBuffersUsage_load [of ?w 2] by (simp add: len COLOR_INDEX_def)
  have 2: "js_load (priv_buffersUsage (coll (snd (computeNewBuffersUsage
     (priv_updatePolyline 2 COLOR_INDEX (snd (computeNewBuffersUsage ?w))))))) (int COLOR_INDEX) =
      Some STATIC_DRAW"
    using ci val
      computeNewBuffersUsage_load [of "priv_updatePolyline 2 COLOR_INDEX (snd (computeNewBuffersUsage ?w))" 2]
    by (simp add: counters_updatePolyline counters_computeNewBuffersUsage len COLOR_INDEX_def)
  from 1 2 show ?thesis by simp
qed

end
